theory Spec2Isabelle
  imports
    Main
    "HOL-Library.Word"
    "HOL-Library.Char_ord"
    "HOL-Library.List_Lexorder"
    "HOL-Library.Product_Lexorder"
begin

section \<open>JavaScript values used by the query component\<close>

text \<open>
  JavaScript strings are modelled as HOL strings (lists of 8-bit characters): the texts
  that the database encodes and the statements that the component builds are ASCII, and
  the two regular expressions below delete a character beyond 8 bits as they delete every
  other character outside their class. Numbers that the component handles are integer
  valued (kind codes, identifiers, row counts), so they are modelled as \<open>int\<close>;
  \<open>NaN\<close>, the one non-integer that \<open>parseInt\<close> can return, is \<open>None\<close>.
\<close>

subsection \<open>Number to string\<close>

text \<open>
  A template literal \<^verbatim>\<open>`${n}`\<close> renders an integer-valued number of magnitude below
  \<open>10^21\<close> in plain decimal notation, most significant digit first, with a leading minus
  sign for a negative number. Kind codes, identifiers and counts are far below that bound.
\<close>

definition digit_char :: "nat \<Rightarrow> char" where
  "digit_char d = ''0123456789'' ! d"

fun decimal :: "nat \<Rightarrow> string" where
  "decimal n = (if n < 10 then [digit_char n] else decimal (n div 10) @ [digit_char (n mod 10)])"

declare decimal.simps [simp del]

definition number_toString :: "int \<Rightarrow> string" where
  "number_toString k = (if k < 0 then CHR ''-'' # decimal (nat (- k)) else decimal (nat k))"

subsection \<open>\<open>formatKind\<close>\<close>

text \<open>
  \<^verbatim>\<open>
  function formatKind(kind: number): string {
    const kinds: Record<number, string> = {
      1: 'Connection', 2: 'Credential', 3: 'Message', 4: 'Key', 5: 'Proof' };
    return kinds[kind] || `Type ${kind}`;
  }
  \<close>
  The object literal is an association list; \<open>kinds[kind]\<close> is the lookup, which is
  \<open>undefined\<close> (here \<open>None\<close>) for a key that is absent. The operator \<open>||\<close> takes its
  right operand when the left one is falsy: \<open>undefined\<close> or the empty string.
\<close>

definition kinds :: "(int \<times> string) list" where
  "kinds = [(1, ''Connection''), (2, ''Credential''), (3, ''Message''), (4, ''Key''), (5, ''Proof'')]"

definition or_else :: "string option \<Rightarrow> string \<Rightarrow> string" where
  "or_else v d = (case v of None \<Rightarrow> d | Some s \<Rightarrow> (if s = [] then d else s))"

definition formatKind :: "int \<Rightarrow> string" where
  "formatKind kind = or_else (map_of kinds kind) (''Type '' @ number_toString kind)"

subsection \<open>\<open>parseInt\<close>\<close>

text \<open>
  \<open>parseInt(s)\<close> with no radix: leading white space is skipped, an optional sign is
  read, a prefix \<open>0x\<close> or \<open>0X\<close> selects radix 16 (radix 10 otherwise), and the longest
  run of digits of that radix is the value. With no digit at all the result is \<open>NaN\<close>.
\<close>

definition is_space :: "char \<Rightarrow> bool" where
  "is_space c = (c \<in> {CHR 0x09, CHR 0x0A, CHR 0x0B, CHR 0x0C, CHR 0x0D, CHR 0x20, CHR 0xA0})"

definition digit_value :: "nat \<Rightarrow> char \<Rightarrow> nat option" where
  "digit_value radix c =
     (let v = (if CHR ''0'' \<le> c \<and> c \<le> CHR ''9'' then Some (of_char c - 48)
               else if CHR ''a'' \<le> c \<and> c \<le> CHR ''z'' then Some (of_char c - 87)
               else if CHR ''A'' \<le> c \<and> c \<le> CHR ''Z'' then Some (of_char c - 55)
               else None)
      in case v of None \<Rightarrow> None | Some d \<Rightarrow> (if d < radix then Some d else None))"

fun leading_digits :: "nat \<Rightarrow> string \<Rightarrow> nat list" where
  "leading_digits radix [] = []"
| "leading_digits radix (c # cs) =
     (case digit_value radix c of None \<Rightarrow> [] | Some d \<Rightarrow> d # leading_digits radix cs)"

definition digits_value :: "nat \<Rightarrow> nat list \<Rightarrow> nat" where
  "digits_value radix ds = foldl (\<lambda>acc d. acc * radix + d) 0 ds"

definition parse_magnitude :: "string \<Rightarrow> nat option" where
  "parse_magnitude s =
     (let (radix, body) =
            (if take 2 s = ''0x'' \<or> take 2 s = ''0X'' then (16, drop 2 s) else (10, s));
          ds = leading_digits radix body
      in if ds = [] then None else Some (digits_value radix ds))"

definition parseInt :: "string \<Rightarrow> int option" where
  "parseInt s =
     (let t = dropWhile is_space s in
      case t of
        [] \<Rightarrow> None
      | c # cs \<Rightarrow>
          (if c = CHR ''-'' then map_option (\<lambda>n. - int n) (parse_magnitude cs)
           else if c = CHR ''+'' then map_option int (parse_magnitude cs)
           else map_option int (parse_magnitude t)))"

subsection \<open>Regular expression replacement\<close>

text \<open>
  \<open>s.replace(/[^a-zA-Z0-9_]/g, '')\<close> deletes every character outside the class, and
  \<open>s.replace(/[^\x20-\x7E]/g, '')\<close> every character outside the printable ASCII range:
  both keep the characters of the class, in their order.
\<close>

definition word_char :: "char \<Rightarrow> bool" where
  "word_char c = ((CHR ''a'' \<le> c \<and> c \<le> CHR ''z'') \<or> (CHR ''A'' \<le> c \<and> c \<le> CHR ''Z'') \<or>
                  (CHR ''0'' \<le> c \<and> c \<le> CHR ''9'') \<or> c = CHR ''_'')"

definition printable :: "char \<Rightarrow> bool" where
  "printable c = (CHR 0x20 \<le> c \<and> c \<le> CHR 0x7E)"

section \<open>The database\<close>

subsection \<open>Tables\<close>

text \<open>
  The \<open>items\<close> table has the columns \<open>id\<close>, \<open>kind\<close> (an integer code),
  \<open>profile_id\<close> and the three binary columns \<open>category\<close>, \<open>name\<close> and \<open>value\<close>;
  no column is null. A table is the list of its rows, in the order in which a scan reads
  them.
\<close>

type_synonym byte = "8 word"

record item =
  item_id :: int
  item_kind :: int
  item_profile_id :: int
  item_category :: "byte list"
  item_name :: "byte list"
  item_value :: "byte list"

text \<open>
  The \<open>id\<close> column has one of the integer types of PostgreSQL. A parameter compared
  with it is read as a value of that type, and the server rejects the statement with the
  error \<open>numeric value out of range\<close> when the number lies outside the type.
\<close>

datatype integer_type = SmallInt | Integer | BigInt

definition type_bits :: "integer_type \<Rightarrow> nat" where
  "type_bits ty = (case ty of SmallInt \<Rightarrow> 16 | Integer \<Rightarrow> 32 | BigInt \<Rightarrow> 64)"

definition type_name :: "integer_type \<Rightarrow> string" where
  "type_name ty = (case ty of SmallInt \<Rightarrow> ''smallint'' | Integer \<Rightarrow> ''integer'' | BigInt \<Rightarrow> ''bigint'')"

definition in_range :: "integer_type \<Rightarrow> int \<Rightarrow> bool" where
  "in_range ty k = (- (2 ^ (type_bits ty - 1)) \<le> k \<and> k < 2 ^ (type_bits ty - 1))"

datatype sqlvalue = SqlNull | SqlInt int | SqlText string | SqlBytes "byte list"

type_synonym row = "(string \<times> sqlvalue) list"

record profile =
  profile_id :: int
  profile_attributes :: row

record column_info =
  column_name :: string
  data_type :: string
  is_nullable :: string

record database =
  items :: "item list"
  id_type :: integer_type
  profiles :: "profile list"
  config :: "row list"
  public_tables :: "string list"
  public_columns :: "string \<Rightarrow> column_info list"
  relations :: "string \<rightharpoonup> row list"

text \<open>
  \<open>id_type\<close> is the type of the \<open>id\<close> column of the items table,
  \<open>public_tables\<close> is what the catalogue \<open>pg_tables\<close> lists for the schema \<open>public\<close>,
  \<open>public_columns t\<close> the columns of \<open>information_schema.columns\<close> for the public table
  \<open>t\<close> in ordinal position, and \<open>relations\<close> maps the target of a \<open>FROM\<close> clause, as it
  is written in the statement, to the rows of the relation it denotes, if any.
\<close>

subsection \<open>The connection pool\<close>

text \<open>
  \<open>pool.query\<close> either throws an error or returns the rows of the statement. A pool is
  either failing (every query throws the error) or serving a database.
\<close>

datatype js_error = Error (message: string)

datatype pool = Failing js_error | Serving database

definition out_of_range :: "integer_type \<Rightarrow> js_error" where
  "out_of_range ty = Error (''value is out of range for type '' @ type_name ty)"

fun pool_query :: "pool \<Rightarrow> (database \<Rightarrow> js_error + 'a) \<Rightarrow> js_error + 'a" where
  "pool_query (Failing e) stmt = Inl e"
| "pool_query (Serving db) stmt = stmt db"

subsection \<open>Functions and clauses of PostgreSQL\<close>

text \<open>
  \<open>encode(b, 'hex')\<close> writes each byte as two lower-case hexadecimal digits.
  \<open>encode(b, 'escape')\<close> writes a zero byte and a byte with the high bit set as a
  backslash and three octal digits, doubles a backslash, and writes every other byte as
  the character with that code.
\<close>

definition hex_digit :: "nat \<Rightarrow> char" where
  "hex_digit d = ''0123456789abcdef'' ! d"

definition hex_byte :: "byte \<Rightarrow> string" where
  "hex_byte b = [hex_digit (unat b div 16), hex_digit (unat b mod 16)]"

definition encode_hex :: "byte list \<Rightarrow> string" where
  "encode_hex bs = concat (map hex_byte bs)"

definition escape_byte :: "byte \<Rightarrow> string" where
  "escape_byte b =
     (if b = 0 \<or> 128 \<le> unat b
      then [CHR 0x5C, digit_char (unat b div 64), digit_char (unat b div 8 mod 8),
            digit_char (unat b mod 8)]
      else if b = 0x5C then [CHR 0x5C, CHR 0x5C]
      else [char_of (unat b)])"

definition encode_escape :: "byte list \<Rightarrow> string" where
  "encode_escape bs = concat (map escape_byte bs)"

text \<open>
  \<open>GROUP BY\<close> makes one group for each distinct value of the grouping key, holding the
  rows with that key in table order; \<open>COUNT( * )\<close> is the size of the group and
  \<open>array_agg\<close> collects a column over it. \<open>ORDER BY\<close> sorts by the key, texts
  compared character by character (rows with equal keys may come in any order; the model
  keeps them in their previous order). \<open>LIMIT n\<close> keeps the first \<open>n\<close> rows.
\<close>

definition sql_group_by :: "('r \<Rightarrow> 'k) \<Rightarrow> 'r list \<Rightarrow> ('k \<times> 'r list) list" where
  "sql_group_by key rows = map (\<lambda>k. (k, filter (\<lambda>r. key r = k) rows)) (remdups (map key rows))"

definition sql_order_by :: "('r \<Rightarrow> 'k::linorder) \<Rightarrow> 'r list \<Rightarrow> 'r list" where
  "sql_order_by key rows = sort_key key rows"

text \<open>
  The driver hands a \<open>bigint\<close> (such as the result of \<open>COUNT\<close>) to JavaScript as its
  decimal text.
\<close>

definition bigint_text :: "nat \<Rightarrow> string" where
  "bigint_text n = decimal n"

section \<open>The query component\<close>

subsection \<open>\<open>getAllItems\<close>\<close>

text \<open>
  The statement selects \<open>id\<close>, \<open>kind\<close>, \<open>profile_id\<close>, \<open>encode(category, 'hex')\<close> as
  \<open>category_hex\<close>, \<open>encode(name, 'escape')\<close> as \<open>name_text\<close> and
  \<open>encode(value, 'escape')\<close> as \<open>value_text\<close> from \<open>postgres.items\<close>, with no
  \<open>WHERE\<close> clause. Each row is then mapped to an object with the kind label and with
  \<open>name_text || '[Binary data]'\<close> and \<open>value_text || '[Binary data]'\<close>. A failure of the
  query is logged and thrown again.
\<close>

record encoded_item =
  ei_id :: int
  ei_kind :: int
  ei_profile_id :: int
  ei_category_hex :: string
  ei_name_text :: string
  ei_value_text :: string

definition select_items_encoded :: "database \<Rightarrow> js_error + encoded_item list" where
  "select_items_encoded db =
     Inr (map (\<lambda>i. \<lparr>ei_id = item_id i, ei_kind = item_kind i, ei_profile_id = item_profile_id i,
                       ei_category_hex = encode_hex (item_category i),
                       ei_name_text = encode_escape (item_name i),
                       ei_value_text = encode_escape (item_value i)\<rparr>) (items db))"

record formatted_item =
  fi_id :: int
  fi_kind :: string
  fi_profile_id :: int
  fi_category :: string
  fi_name :: string
  fi_value :: string

definition format_item :: "encoded_item \<Rightarrow> formatted_item" where
  "format_item item =
     \<lparr>fi_id = ei_id item, fi_kind = formatKind (ei_kind item),
      fi_profile_id = ei_profile_id item, fi_category = ei_category_hex item,
      fi_name = or_else (Some (ei_name_text item)) ''[Binary data]'',
      fi_value = or_else (Some (ei_value_text item)) ''[Binary data]''\<rparr>"

definition getAllItems :: "pool \<Rightarrow> js_error + formatted_item list" where
  "getAllItems p =
     (case pool_query p select_items_encoded of
        Inl e \<Rightarrow> Inl e
      | Inr rows \<Rightarrow> Inr (map format_item rows))"

subsection \<open>\<open>countItemsByCategory\<close>\<close>

text \<open>
  The statement first encodes every item (\<open>item_data\<close>), groups by
  \<open>category_hex, name_text, kind\<close>, selects the key, \<open>COUNT( * )\<close> and \<open>array_agg(id)\<close>,
  and orders by \<open>count DESC, category_hex\<close>. Each row is then mapped: the credential type
  starts as \<open>Unknown\<close> and becomes the name text without its non-printable characters when
  the name text is not empty and something is left of it; the count goes through
  \<open>parseInt\<close> and the kind through \<open>formatKind\<close>.
\<close>

record item_data =
  id_category_hex :: string
  id_name_text :: string
  id_value_text :: string
  id_kind :: int
  id_id :: int

definition item_data_of :: "item \<Rightarrow> item_data" where
  "item_data_of i =
     \<lparr>id_category_hex = encode_hex (item_category i), id_name_text = encode_escape (item_name i),
      id_value_text = encode_escape (item_value i), id_kind = item_kind i, id_id = item_id i\<rparr>"

record category_group =
  cg_category_hex :: string
  cg_name_text :: string
  cg_count :: nat
  cg_kind :: int
  cg_item_ids :: "int list"

definition select_category_groups :: "database \<Rightarrow> js_error + category_group list" where
  "select_category_groups db =
     Inr (sql_order_by (\<lambda>r. (- int (cg_count r), cg_category_hex r))
            (map (\<lambda>((c, n, k), g).
                    \<lparr>cg_category_hex = c, cg_name_text = n, cg_count = length g, cg_kind = k,
                     cg_item_ids = map id_id g\<rparr>)
               (sql_group_by (\<lambda>d. (id_category_hex d, id_name_text d, id_kind d))
                  (map item_data_of (items db)))))"

record category_count =
  cc_category_hex :: string
  cc_credential_type :: string
  cc_count :: "int option"
  cc_kind :: string
  cc_item_ids :: "int list"

definition credential_type_of :: "string \<Rightarrow> string" where
  "credential_type_of name_text =
     (if name_text \<noteq> [] \<and> 0 < length name_text
      then (let cleanedText = filter printable name_text
            in if 0 < length cleanedText then cleanedText else ''Unknown'')
      else ''Unknown'')"

definition format_category :: "category_group \<Rightarrow> category_count" where
  "format_category r =
     \<lparr>cc_category_hex = cg_category_hex r,
      cc_credential_type = credential_type_of (cg_name_text r),
      cc_count = parseInt (bigint_text (cg_count r)),
      cc_kind = formatKind (cg_kind r),
      cc_item_ids = cg_item_ids r\<rparr>"

definition countItemsByCategory :: "pool \<Rightarrow> js_error + category_count list" where
  "countItemsByCategory p =
     (case pool_query p select_category_groups of
        Inl e \<Rightarrow> Inl e
      | Inr rows \<Rightarrow> Inr (map format_category rows))"

subsection \<open>\<open>getItemsByProfileAndKind\<close>\<close>

text \<open>
  Items joined with their profiles, grouped and ordered by profile and kind; the rows are
  returned as the driver delivers them.
\<close>

record profile_kind_count =
  pk_profile_id :: int
  pk_kind :: int
  pk_count :: string

definition select_profile_kind_counts :: "database \<Rightarrow> js_error + profile_kind_count list" where
  "select_profile_kind_counts db =
     Inr (sql_order_by (\<lambda>r. (pk_profile_id r, pk_kind r))
            (map (\<lambda>((pid, k), g). \<lparr>pk_profile_id = pid, pk_kind = k, pk_count = bigint_text (length g)\<rparr>)
               (sql_group_by (\<lambda>(i, p). (profile_id p, item_kind i))
                  (concat (map (\<lambda>i. map (\<lambda>p. (i, p))
                                       (filter (\<lambda>p. item_profile_id i = profile_id p) (profiles db)))
                             (items db))))))"

definition getItemsByProfileAndKind :: "pool \<Rightarrow> js_error + profile_kind_count list" where
  "getItemsByProfileAndKind p =
     (case pool_query p select_profile_kind_counts of Inl e \<Rightarrow> Inl e | Inr rows \<Rightarrow> Inr rows)"

subsection \<open>\<open>getItemById\<close>, \<open>getAllProfiles\<close>, \<open>getConfiguration\<close>\<close>

text \<open>
  \<open>SELECT * FROM postgres.items WHERE id = $1\<close>, then
  \<open>result.rows.length ? result.rows[0] : null\<close>; \<open>null\<close> is \<open>None\<close>. The function
  passes its argument on as the parameter without a check, so the server reads it as a
  value of the type of the \<open>id\<close> column and the query throws when it is out of range.
\<close>

definition select_item_by_id :: "int \<Rightarrow> database \<Rightarrow> js_error + item list" where
  "select_item_by_id k db =
     (if in_range (id_type db) k then Inr (filter (\<lambda>i. item_id i = k) (items db))
      else Inl (out_of_range (id_type db)))"

definition first_or_null :: "'a list \<Rightarrow> 'a option" where
  "first_or_null rows = (if length rows \<noteq> 0 then Some (rows ! 0) else None)"

definition getItemById :: "pool \<Rightarrow> int \<Rightarrow> js_error + item option" where
  "getItemById p k =
     (case pool_query p (select_item_by_id k) of
        Inl e \<Rightarrow> Inl e
      | Inr rows \<Rightarrow> Inr (first_or_null rows))"

definition getAllProfiles :: "pool \<Rightarrow> js_error + profile list" where
  "getAllProfiles p =
     (case pool_query p (\<lambda>db. Inr (profiles db)) of Inl e \<Rightarrow> Inl e | Inr rows \<Rightarrow> Inr rows)"

definition getConfiguration :: "pool \<Rightarrow> js_error + row list" where
  "getConfiguration p =
     (case pool_query p (\<lambda>db. Inr (config db)) of Inl e \<Rightarrow> Inl e | Inr rows \<Rightarrow> Inr rows)"

subsection \<open>\<open>getTableData\<close>\<close>

text \<open>
  \<^verbatim>\<open>
  const safeTableName = tableName.replace(/[^a-zA-Z0-9_]/g, '');
  const query = `SELECT * FROM postgres.${safeTableName} LIMIT $1`;
  const result = await pool.query(query, [limit]);
  \<close>
  The parameter \<open>limit\<close> defaults to 20 when the caller leaves it out. This is the one
  statement whose text depends on the input, so the statement is kept as text and
  parameters, and the server reads the target of \<open>FROM\<close> out of the text.
\<close>

record statement =
  st_text :: string
  st_params :: "int list"

definition safeTableName :: "string \<Rightarrow> string" where
  "safeTableName tableName = filter word_char tableName"

definition table_data_statement :: "string \<Rightarrow> int option \<Rightarrow> statement" where
  "table_data_statement tableName limit =
     \<lparr>st_text = ''SELECT * FROM postgres.'' @ safeTableName tableName @ '' LIMIT $1'',
      st_params = [case limit of None \<Rightarrow> 20 | Some n \<Rightarrow> n]\<rparr>"

definition select_target :: "string \<Rightarrow> string option" where
  "select_target t =
     (if 23 \<le> length t \<and> take 14 t = ''SELECT * FROM '' \<and> drop (length t - 9) t = '' LIMIT $1''
      then Some (take (length t - 23) (drop 14 t)) else None)"

definition execute :: "statement \<Rightarrow> database \<Rightarrow> js_error + row list" where
  "execute st db =
     (case select_target (st_text st) of
        None \<Rightarrow> Inl (Error ''syntax error'')
      | Some target \<Rightarrow>
          (case relations db target of
             None \<Rightarrow> Inl (Error (''relation '' @ target @ '' does not exist''))
           | Some rows \<Rightarrow>
               (case st_params st of
                  [n] \<Rightarrow> (if n < 0 then Inl (Error ''LIMIT must not be negative'')
                          else Inr (take (nat n) rows))
                | _ \<Rightarrow> Inl (Error ''wrong number of parameters''))))"

definition getTableData :: "pool \<Rightarrow> string \<Rightarrow> int option \<Rightarrow> js_error + row list" where
  "getTableData p tableName limit =
     (case pool_query p (execute (table_data_statement tableName limit)) of
        Inl e \<Rightarrow> Inl e
      | Inr rows \<Rightarrow> Inr rows)"

subsection \<open>\<open>getTables\<close>, \<open>getTableSchema\<close>, \<open>getAllItemsFromPublicSchema\<close>\<close>

definition getTables :: "pool \<Rightarrow> js_error + string list" where
  "getTables p =
     (case pool_query p (\<lambda>db. Inr (sql_order_by (\<lambda>t. t) (public_tables db))) of
        Inl e \<Rightarrow> Inl e
      | Inr rows \<Rightarrow> Inr (map (\<lambda>tablename. tablename) rows))"

definition getTableSchema :: "pool \<Rightarrow> string \<Rightarrow> js_error + column_info list" where
  "getTableSchema p tableName =
     (case pool_query p (\<lambda>db. Inr (public_columns db tableName)) of
        Inl e \<Rightarrow> Inl e
      | Inr rows \<Rightarrow> Inr rows)"

text \<open>
  \<open>process.env\<close> is a partial map from names to strings, and \<open>dbConfig\<close> is read from it
  with \<open>||\<close> defaults.
\<close>

type_synonym env = "string \<rightharpoonup> string"

record db_config =
  dbc_host :: string
  dbc_port :: "int option"
  dbc_database :: string
  dbc_user :: string
  dbc_password :: string

definition dbConfig :: "env \<Rightarrow> db_config" where
  "dbConfig env =
     \<lparr>dbc_host = or_else (env ''POSTGRESQL_HOST'') ''localhost'',
      dbc_port = parseInt (or_else (env ''POSTGRESQL_PORT'') ''5432''),
      dbc_database = or_else (env ''POSTGRESQL_DB'') ''askar-wallet'',
      dbc_user = or_else (env ''POSTGRESQL_USER'') ''postgres'',
      dbc_password = or_else (env ''POSTGRESQL_PASSWORD'') ''postgresPass''\<rparr>"

text \<open>
  \<open>const pool = new Pool(dbConfig)\<close>: the pool connects, as the user and with the
  password of the configuration, to the server that answers at the configured host and
  port. When the server cannot be reached, every query throws the error of the
  connection attempt. When the server does not accept the password for the user, every
  query throws the error of the failed authentication, whose message names the user.
\<close>

datatype server = Unreachable js_error | Listening "string \<rightharpoonup> string" database

definition authentication_failed :: "string \<Rightarrow> js_error" where
  "authentication_failed user =
     Error (''password authentication failed for user '' @ [CHR 0x22] @ user @ [CHR 0x22])"

fun new_Pool :: "db_config \<Rightarrow> server \<Rightarrow> pool" where
  "new_Pool cfg (Unreachable e) = Failing e"
| "new_Pool cfg (Listening accounts db) =
     (if accounts (dbc_user cfg) = Some (dbc_password cfg) then Serving db
      else Failing (authentication_failed (dbc_user cfg)))"

definition module_pool :: "env \<Rightarrow> server \<Rightarrow> pool" where
  "module_pool env srv = new_Pool (dbConfig env) srv"

datatype json = JNull | JNum int | JStr string | JArr "json list" | JObj "(string \<times> json) list"

record table_detail =
  td_name :: string
  td_schema :: "column_info list"
  td_sampleData :: "row list"
  td_rowCount :: nat

record database_info =
  di_database :: string
  di_tables :: "string list"
  di_tableDetails :: "table_detail list"

datatype schema_report = Placeholder "json list" | DatabaseInfo database_info

text \<open>
  The loop over \<open>importantTables\<close>: for each table its schema and five sample rows are
  fetched and a detail is pushed; the first query that throws ends the loop with its error.
\<close>

fun table_details :: "pool \<Rightarrow> string list \<Rightarrow> js_error + table_detail list" where
  "table_details p [] = Inr []"
| "table_details p (tableName # others) =
     (case getTableSchema p tableName of
        Inl e \<Rightarrow> Inl e
      | Inr schema \<Rightarrow>
          (case getTableData p tableName (Some 5) of
             Inl e \<Rightarrow> Inl e
           | Inr sampleData \<Rightarrow>
               (case table_details p others of
                  Inl e \<Rightarrow> Inl e
                | Inr details \<Rightarrow>
                    Inr (\<lparr>td_name = tableName, td_schema = schema, td_sampleData = sampleData,
                          td_rowCount = length sampleData\<rparr> # details))))"

definition sample_item_1 :: json where
  "sample_item_1 = JObj [(''id'', JNum 1), (''name'', JStr ''Sample Item 1''),
                         (''description'', JStr ''This is a sample item'')]"

definition sample_item_2 :: json where
  "sample_item_2 = JObj [(''id'', JNum 2), (''name'', JStr ''Sample Item 2''),
                         (''description'', JStr ''Another sample item'')]"

definition public_schema_body :: "env \<Rightarrow> pool \<Rightarrow> js_error + schema_report" where
  "public_schema_body env p =
     (case getTables p of
        Inl e \<Rightarrow> Inl e
      | Inr tables \<Rightarrow>
          (if length tables = 0 then Inr (Placeholder [sample_item_1, sample_item_2])
           else (let importantTables = take 3 tables in
                 case table_details p importantTables of
                   Inl e \<Rightarrow> Inl e
                 | Inr details \<Rightarrow>
                     Inr (DatabaseInfo \<lparr>di_database = dbc_database (dbConfig env),
                                         di_tables = tables, di_tableDetails = details\<rparr>))))"

definition error_placeholder :: "js_error \<Rightarrow> json list" where
  "error_placeholder error =
     [JObj [(''error'', JStr ''Error fetching database info''), (''details'', JStr (message error))],
      sample_item_1]"

definition getAllItemsFromPublicSchema :: "env \<Rightarrow> pool \<Rightarrow> schema_report" where
  "getAllItemsFromPublicSchema env p =
     (case public_schema_body env p of
        Inr report \<Rightarrow> report
      | Inl error \<Rightarrow> Placeholder (error_placeholder error))"

subsection \<open>\<open>countItemsByKind\<close>\<close>

text \<open>
  \<open>SELECT kind, COUNT( * ) as count FROM postgres.items GROUP BY kind ORDER BY kind\<close>, then
  each row becomes the kind label, the kind code and \<open>parseInt\<close> of the count.
\<close>

record kind_group =
  kg_kind :: int
  kg_count :: nat

definition select_kind_groups :: "database \<Rightarrow> js_error + kind_group list" where
  "select_kind_groups db =
     Inr (sql_order_by kg_kind
            (map (\<lambda>(k, g). \<lparr>kg_kind = k, kg_count = length g\<rparr>)
               (sql_group_by item_kind (items db))))"

record kind_count =
  kc_kind :: string
  kc_kind_id :: int
  kc_count :: "int option"

definition format_kind_count :: "kind_group \<Rightarrow> kind_count" where
  "format_kind_count r =
     \<lparr>kc_kind = formatKind (kg_kind r), kc_kind_id = kg_kind r,
      kc_count = parseInt (bigint_text (kg_count r))\<rparr>"

definition countItemsByKind :: "pool \<Rightarrow> js_error + kind_count list" where
  "countItemsByKind p =
     (case pool_query p select_kind_groups of
        Inl e \<Rightarrow> Inl e
      | Inr rows \<Rightarrow> Inr (map format_kind_count rows))"

subsection \<open>The MySQL variant of the component\<close>




section \<open>The route component\<close>

text \<open>
  A handler writes at most one response and may pass an error to \<open>next\<close>. The body of a
  response is a JSON value, or the object \<open>{ errors: errors.array() }\<close> of a failed
  validation.
\<close>

record validation_error =
  ve_location :: string
  ve_field :: string
  ve_value :: "string option"
  ve_msg :: string

datatype response_body = Json json | ValidationErrors "validation_error list"

record http_response =
  status :: nat
  body :: response_body

record outcome =
  response :: "http_response option"
  forwarded :: "js_error option"

subsection \<open>\<open>GET /items\<close>\<close>

text \<open>
  \<^verbatim>\<open>
  try {
    const items = await databaseComponent.getAllItems();
    res.status(200).json(items);
  } catch (error: any) {
    res.status(500).json({
      error: 'Database error',
      details: error.message,
      config: {
        host: process.env.POSTGRESQL_HOST || 'localhost',
        port: process.env.POSTGRESQL_PORT || '5432',
        database: process.env.POSTGRESQL_DB || 'askar-wallet'
      }
    });
    next(error);
  }
  \<close>
\<close>

definition item_json :: "formatted_item \<Rightarrow> json" where
  "item_json i =
     JObj [(''id'', JNum (fi_id i)), (''kind'', JStr (fi_kind i)),
           (''profile_id'', JNum (fi_profile_id i)), (''category'', JStr (fi_category i)),
           (''name'', JStr (fi_name i)), (''value'', JStr (fi_value i))]"

definition get_items :: "env \<Rightarrow> pool \<Rightarrow> outcome" where
  "get_items env p =
     (case getAllItems p of
        Inr fetched \<Rightarrow>
          \<lparr>response = Some \<lparr>status = 200, body = Json (JArr (map item_json fetched))\<rparr>,
           forwarded = None\<rparr>
      | Inl error \<Rightarrow>
          \<lparr>response = Some
             \<lparr>status = 500,
              body = Json (JObj
                [(''error'', JStr ''Database error''),
                 (''details'', JStr (message error)),
                 (''config'', JObj
                    [(''host'', JStr (or_else (env ''POSTGRESQL_HOST'') ''localhost'')),
                     (''port'', JStr (or_else (env ''POSTGRESQL_PORT'') ''5432'')),
                     (''database'', JStr (or_else (env ''POSTGRESQL_DB'') ''askar-wallet''))])])\<rparr>,
           forwarded = Some error\<rparr>)"

subsection \<open>\<open>POST /email/reservationConfirmation\<close>\<close>

text \<open>
  The route runs the chains \<open>body("contactEmail").isEmail()\<close> and
  \<open>body("reservationId").not().isEmpty()\<close> before its handler. A chain reads the field of
  the request body as text (a missing field as the empty text), applies its validator,
  negated after \<open>not()\<close>, and records an error naming the field when the check fails.
  \<open>isEmail\<close> belongs to the validation library and is a parameter here; \<open>isEmpty\<close> holds
  of the empty text. The handler:
  \<^verbatim>\<open>
  try {
    const errors = validationResult(req);
    if (!errors.isEmpty()) {
      res.status(422).json({ errors: errors.array() });
      return;
    }
    const result = await emailComponent.sendConfirmationEmail(req);
    res.send(result);
  } catch (error) {
    next(error);
  }
  \<close>
  The email component is a parameter as well; the requests handed to it are recorded.
\<close>

record request =
  req_body :: "string \<rightharpoonup> string"

record validation_chain =
  vc_field :: string
  vc_negated :: bool
  vc_validator :: "string \<Rightarrow> bool"

definition isEmpty :: "string \<Rightarrow> bool" where
  "isEmpty str = (length str = 0)"

definition run_chain :: "request \<Rightarrow> validation_chain \<Rightarrow> validation_error list" where
  "run_chain req c =
     (let v = req_body req (vc_field c);
          str = (case v of None \<Rightarrow> [] | Some s \<Rightarrow> s)
      in if vc_validator c str \<noteq> vc_negated c then []
         else [\<lparr>ve_location = ''body'', ve_field = vc_field c, ve_value = v,
                 ve_msg = ''Invalid value''\<rparr>])"

definition validationResult :: "validation_chain list \<Rightarrow> request \<Rightarrow> validation_error list" where
  "validationResult validators req = concat (map (run_chain req) validators)"

record email_outcome = outcome +
  emails :: "request list"

definition reservationConfirmation ::
  "(string \<Rightarrow> bool) \<Rightarrow> (request \<Rightarrow> js_error + json) \<Rightarrow> request \<Rightarrow> email_outcome" where
  "reservationConfirmation isEmail sendConfirmationEmail req =
     (let errors = validationResult
            [\<lparr>vc_field = ''contactEmail'', vc_negated = False, vc_validator = isEmail\<rparr>,
             \<lparr>vc_field = ''reservationId'', vc_negated = True, vc_validator = isEmpty\<rparr>] req
      in if errors \<noteq> []
         then \<lparr>response = Some \<lparr>status = 422, body = ValidationErrors errors\<rparr>,
               forwarded = None, emails = []\<rparr>
         else (case sendConfirmationEmail req of
                 Inr result \<Rightarrow>
                   \<lparr>response = Some \<lparr>status = 200, body = Json result\<rparr>,
                    forwarded = None, emails = [req]\<rparr>
               | Inl error \<Rightarrow>
                   \<lparr>response = None, forwarded = Some error, emails = [req]\<rparr>))"

section \<open>The summaries as the specification words them\<close>

text \<open>
  The specification describes the two summaries row by row: for a kind code, the label,
  the code and the number of items of that kind; for a category, a name and a kind, the
  category in hexadecimal, the credential type, the number of items of that group, the
  kind label and the identifiers of the items of the group. The credential type is the
  printable part of the escaped text of the name, or \<open>Unknown\<close> when nothing is left.
  These definitions are what the results of the queries are compared with.
\<close>

definition kind_summary_row :: "item list \<Rightarrow> int \<Rightarrow> kind_count" where
  "kind_summary_row its k =
     \<lparr>kc_kind = formatKind k, kc_kind_id = k,
      kc_count = Some (int (length (filter (\<lambda>i. item_kind i = k) its)))\<rparr>"

definition item_group :: "item \<Rightarrow> byte list \<times> byte list \<times> int" where
  "item_group i = (item_category i, item_name i, item_kind i)"

definition category_summary_row ::
  "item list \<Rightarrow> byte list \<times> byte list \<times> int \<Rightarrow> category_count" where
  "category_summary_row its g =
     (case g of (c, n, k) \<Rightarrow>
        \<lparr>cc_category_hex = encode_hex c,
         cc_credential_type =
           (if filter printable (encode_escape n) = [] then ''Unknown''
            else filter printable (encode_escape n)),
         cc_count = Some (int (length (filter (\<lambda>i. item_group i = g) its))),
         cc_kind = formatKind k,
         cc_item_ids = map item_id (filter (\<lambda>i. item_group i = g) its)\<rparr>)"

text \<open>
  The statement groups by the encoded category, the encoded name and the kind. The
  specification orders the groups by falling size and then by rising category, the
  categories compared byte by byte.
\<close>

definition encode_group :: "byte list \<times> byte list \<times> int \<Rightarrow> string \<times> string \<times> int" where
  "encode_group g = (case g of (c, n, k) \<Rightarrow> (encode_hex c, encode_escape n, k))"

definition group_size :: "item list \<Rightarrow> byte list \<times> byte list \<times> int \<Rightarrow> nat" where
  "group_size its g = length (filter (\<lambda>i. item_group i = g) its)"

definition group_before ::
  "item list \<Rightarrow> byte list \<times> byte list \<times> int \<Rightarrow> byte list \<times> byte list \<times> int \<Rightarrow> bool" where
  "group_before its g h =
     (group_size its h < group_size its g \<or>
      (group_size its g = group_size its h \<and> fst g \<le> fst h))"

text \<open>
  The row that the statement of \<open>countItemsByCategory\<close> yields for a group.
\<close>

definition group_row :: "item list \<Rightarrow> byte list \<times> byte list \<times> int \<Rightarrow> category_group" where
  "group_row its g =
     \<lparr>cg_category_hex = encode_hex (fst g), cg_name_text = encode_escape (fst (snd g)),
      cg_count = group_size its g, cg_kind = snd (snd g),
      cg_item_ids = map item_id (filter (\<lambda>i. item_group i = g) its)\<rparr>"

section \<open>Example data\<close>

definition demo_db :: database where
  "demo_db = \<lparr>items = [], id_type = BigInt, profiles = [], config = [], public_tables = [],
       public_columns = (\<lambda>t. []),
       relations = [''postgres.publicItems_2'' \<mapsto> [[(''a'', SqlInt 1)], [(''a'', SqlInt 2)]]]\<rparr>"

definition demo_items :: "item list" where
  "demo_items =
     [\<lparr>item_id = 1, item_kind = 2, item_profile_id = 1, item_category = [0xAB],
       item_name = [0x41], item_value = [0x01]\<rparr>,
      \<lparr>item_id = 2, item_kind = 2, item_profile_id = 1, item_category = [0xAB],
       item_name = [0x41], item_value = []\<rparr>,
      \<lparr>item_id = 3, item_kind = 1, item_profile_id = 1, item_category = [0x0C],
       item_name = [0x80], item_value = [0x5C]\<rparr>,
      \<lparr>item_id = 4, item_kind = 7, item_profile_id = 2, item_category = [0x0C],
       item_name = [0x07], item_value = [0x00]\<rparr>]"

definition demo_high_byte :: database where
  "demo_high_byte =
     \<lparr>items = [\<lparr>item_id = 3, item_kind = 1, item_profile_id = 1, item_category = [0x0C],
                item_name = [0x80], item_value = [0x5C]\<rparr>],
      id_type = BigInt, profiles = [], config = [], public_tables = [],
      public_columns = (\<lambda>t. []), relations = Map.empty\<rparr>"

definition demo_wallet :: database where
  "demo_wallet = \<lparr>items = demo_items, id_type = BigInt, profiles = [], config = [], public_tables = [],
       public_columns = (\<lambda>t. []), relations = Map.empty\<rparr>"

definition demo_env :: env where
  "demo_env = [''POSTGRESQL_USER'' \<mapsto> ''wallet_admin'', ''POSTGRESQL_PASSWORD'' \<mapsto> ''guess'']"

definition demo_server :: server where
  "demo_server = Listening [''wallet_admin'' \<mapsto> ''s3cret''] demo_wallet"

definition demo_catalog :: database where
  "demo_catalog =
     \<lparr>items = [], id_type = BigInt, profiles = [], config = [],
      public_tables = [''wallet'', ''items'', ''profiles'', ''config''],
      public_columns = (\<lambda>t. [\<lparr>column_name = ''id'', data_type = ''bigint'', is_nullable = ''NO''\<rparr>]),
      relations = [''postgres.config'' \<mapsto> [],
                   ''postgres.profiles'' \<mapsto> [[(''id'', SqlInt 1)]],
                   ''postgres.items'' \<mapsto> map (\<lambda>k. [(''id'', SqlInt k)]) [1, 2, 3, 4, 5, 6, 7]]\<rparr>"

definition demo_broken :: database where
  "demo_broken =
     \<lparr>items = [], id_type = BigInt, profiles = [], config = [], public_tables = [''wallet''],
      public_columns = (\<lambda>t. []), relations = Map.empty\<rparr>"

section \<open>The kind labels\<close>

text \<open>
  Claim C1. The label mapping is a total function on the integers: the codes 1 to 5 give
  Connection, Credential, Message, Key and Proof, and every other integer gives the
  text \<open>Type\<close>, a space and the decimal rendering of the code.
\<close>

theorem formatKind_total:
  "formatKind 1 = ''Connection'' \<and> formatKind 2 = ''Credential'' \<and>
   formatKind 3 = ''Message'' \<and> formatKind 4 = ''Key'' \<and> formatKind 5 = ''Proof'' \<and>
   (\<forall>k. k \<notin> {1, 2, 3, 4, 5} \<longrightarrow> formatKind k = ''Type '' @ number_toString k)"
  by (simp add: formatKind_def or_else_def kinds_def)

theorem formatKind_total_witness:
  "(0::int) \<notin> {1, 2, 3, 4, 5} \<and> formatKind 0 = ''Type 0'' \<and>
   (-7::int) \<notin> {1, 2, 3, 4, 5} \<and> formatKind (- 7) = ''Type -7'' \<and>
   (426::int) \<notin> {1, 2, 3, 4, 5} \<and> formatKind 426 = ''Type 426''"
  using formatKind_total
  by (simp add: number_toString_def decimal.simps digit_char_def)

section \<open>Table data\<close>

lemma select_target_statement:
  "select_target (''SELECT * FROM '' @ x @ '' LIMIT $1'') = Some x"
  by (simp add: select_target_def)

lemma set_safeTableName: "set (safeTableName t) \<subseteq> {c. word_char c}"
  by (auto simp: safeTableName_def)

lemma safeTableName_idem: "safeTableName (safeTableName t) = safeTableName t"
  by (simp add: safeTableName_def)

lemma table_data_statement_safe:
  "table_data_statement (safeTableName t) limit = table_data_statement t limit"
  by (simp add: table_data_statement_def safeTableName_idem)

lemma table_data_statement_text:
  "st_text (table_data_statement tableName limit) =
     ''SELECT * FROM postgres.'' @ safeTableName tableName @ '' LIMIT $1''"
  by (simp add: table_data_statement_def)

lemma table_data_statement_target:
  "select_target (st_text (table_data_statement tableName limit)) =
     Some (''postgres.'' @ safeTableName tableName)"
proof -
  have "st_text (table_data_statement tableName limit) =
     ''SELECT * FROM '' @ (''postgres.'' @ safeTableName tableName) @ '' LIMIT $1''"
    by (simp add: table_data_statement_def)
  then show ?thesis by (simp only: select_target_statement)
qed

lemma safeTableName_class:
  "\<forall>c \<in> set (safeTableName tableName).
      (CHR ''a'' \<le> c \<and> c \<le> CHR ''z'') \<or> (CHR ''A'' \<le> c \<and> c \<le> CHR ''Z'') \<or>
      (CHR ''0'' \<le> c \<and> c \<le> CHR ''9'') \<or> c = CHR ''_''"
  using set_safeTableName [of tableName] by (auto simp: word_char_def)

lemma safeTableName_filter:
  "safeTableName tableName =
     filter (\<lambda>c. (CHR ''a'' \<le> c \<and> c \<le> CHR ''z'') \<or> (CHR ''A'' \<le> c \<and> c \<le> CHR ''Z'') \<or>
                  (CHR ''0'' \<le> c \<and> c \<le> CHR ''9'') \<or> c = CHR ''_'') tableName"
  unfolding safeTableName_def by (rule filter_cong) (simp_all add: word_char_def)

lemma getTableData_safe:
  "getTableData p tableName limit = getTableData p (safeTableName tableName) limit"
  by (simp add: getTableData_def table_data_statement_safe)

lemma getTableData_Serving:
  "getTableData (Serving db) tableName limit =
     (case relations db (''postgres.'' @ safeTableName tableName) of
        None \<Rightarrow> Inl (Error (''relation postgres.'' @ safeTableName tableName @ '' does not exist''))
      | Some rows \<Rightarrow>
          (let n = (case limit of None \<Rightarrow> 20 | Some n \<Rightarrow> n)
           in if n < 0 then Inl (Error ''LIMIT must not be negative'') else Inr (take (nat n) rows)))"
  unfolding getTableData_def execute_def pool_query.simps table_data_statement_target
  by (simp add: table_data_statement_def split: option.splits)

lemma safeTableName_example: "safeTableName ''items; DROP TABLE x'' = ''itemsDROPTABLEx''"
  by (simp add: safeTableName_def word_char_def)

lemma table_data_statement_example:
  "st_text (table_data_statement ''items; DROP TABLE x'' (Some 10)) =
     ''SELECT * FROM postgres.itemsDROPTABLEx LIMIT $1''"
  by (simp add: table_data_statement_def safeTableName_example)

text \<open>
  Claim C2. \<open>getTableData\<close> never rejects a table name: it deletes every character
  outside \<open>[A-Za-z0-9_]\<close> and puts what is left into the statement. The text of the
  statement is the fixed frame around the stripped name, the server reads the stripped
  name as the target, the result is that of the call with the stripped name, and on a
  serving pool it is the lookup of the stripped name followed by the limit. The name
  \<open>items; DROP TABLE x\<close> is stripped to \<open>itemsDROPTABLEx\<close>.
\<close>

theorem getTableData_sanitized:
  "st_text (table_data_statement tableName limit) =
     ''SELECT * FROM postgres.'' @ safeTableName tableName @ '' LIMIT $1'' \<and>
   (\<forall>c \<in> set (safeTableName tableName).
      (CHR ''a'' \<le> c \<and> c \<le> CHR ''z'') \<or> (CHR ''A'' \<le> c \<and> c \<le> CHR ''Z'') \<or>
      (CHR ''0'' \<le> c \<and> c \<le> CHR ''9'') \<or> c = CHR ''_'') \<and>
   safeTableName tableName =
     filter (\<lambda>c. (CHR ''a'' \<le> c \<and> c \<le> CHR ''z'') \<or> (CHR ''A'' \<le> c \<and> c \<le> CHR ''Z'') \<or>
                  (CHR ''0'' \<le> c \<and> c \<le> CHR ''9'') \<or> c = CHR ''_'') tableName \<and>
   select_target (st_text (table_data_statement tableName limit)) =
     Some (''postgres.'' @ safeTableName tableName) \<and>
   getTableData p tableName limit = getTableData p (safeTableName tableName) limit \<and>
   getTableData (Serving db) tableName limit =
     (case relations db (''postgres.'' @ safeTableName tableName) of
        None \<Rightarrow> Inl (Error (''relation postgres.'' @ safeTableName tableName @ '' does not exist''))
      | Some rows \<Rightarrow>
          (let n = (case limit of None \<Rightarrow> 20 | Some n \<Rightarrow> n)
           in if n < 0 then Inl (Error ''LIMIT must not be negative'') else Inr (take (nat n) rows))) \<and>
   safeTableName ''items; DROP TABLE x'' = ''itemsDROPTABLEx'' \<and>
   st_text (table_data_statement ''items; DROP TABLE x'' (Some 10)) =
     ''SELECT * FROM postgres.itemsDROPTABLEx LIMIT $1''"
  apply (intro conjI)
         apply (rule table_data_statement_text)
        apply (rule safeTableName_class)
       apply (rule safeTableName_filter)
      apply (rule table_data_statement_target)
     apply (rule getTableData_safe)
    apply (rule getTableData_Serving)
   apply (rule safeTableName_example)
  apply (rule table_data_statement_example)
  done

theorem getTableData_sanitized_witness:
  "safeTableName ''public.Items_2'' = ''publicItems_2'' \<and>
   CHR ''I'' \<in> set (safeTableName ''public.Items_2'') \<and>
   CHR ''A'' \<le> CHR ''I'' \<and> CHR ''I'' \<le> CHR ''Z'' \<and>
   getTableData (Serving demo_db) ''public.Items_2'' (Some 1) = Inr [[(''a'', SqlInt 1)]]"
proof -
  have safe: "safeTableName ''public.Items_2'' = ''publicItems_2''"
    by (simp add: safeTableName_def word_char_def)
  have rel: "relations demo_db ''postgres.publicItems_2'' = Some [[(''a'', SqlInt 1)], [(''a'', SqlInt 2)]]"
    by (simp add: demo_db_def)
  have mem: "CHR ''I'' \<in> set (safeTableName ''public.Items_2'')"
    by (simp add: safe)
  note inst = getTableData_sanitized [of "''public.Items_2''" "Some 1" "Serving demo_db" demo_db]
  from inst have "\<forall>c \<in> set (safeTableName ''public.Items_2'').
      (CHR ''a'' \<le> c \<and> c \<le> CHR ''z'') \<or> (CHR ''A'' \<le> c \<and> c \<le> CHR ''Z'') \<or>
      (CHR ''0'' \<le> c \<and> c \<le> CHR ''9'') \<or> c = CHR ''_''"
    by (elim conjE)
  with mem have cls: "CHR ''A'' \<le> CHR ''I'' \<and> CHR ''I'' \<le> CHR ''Z''"
    by simp
  from inst have srv: "getTableData (Serving demo_db) ''public.Items_2'' (Some 1) =
     (case relations demo_db (''postgres.'' @ safeTableName ''public.Items_2'') of
        None \<Rightarrow> Inl (Error (''relation postgres.'' @ safeTableName ''public.Items_2'' @ '' does not exist''))
      | Some rows \<Rightarrow>
          (let n = (case Some 1 of None \<Rightarrow> 20 | Some n \<Rightarrow> n)
           in if n < 0 then Inl (Error ''LIMIT must not be negative'') else Inr (take (nat n) rows)))"
    by (elim conjE)
  have res: "getTableData (Serving demo_db) ''public.Items_2'' (Some 1) = Inr [[(''a'', SqlInt 1)]]"
    unfolding srv safe using rel by simp
  from safe mem cls res show ?thesis by (simp only: simp_thms)
qed

section \<open>Listing and looking up items\<close>

lemma escape_byte_not_Nil: "escape_byte b \<noteq> []"
  by (simp add: escape_byte_def)

lemma encode_escape_Nil_iff: "encode_escape bs = [] \<longleftrightarrow> bs = []"
  by (cases bs) (simp_all add: encode_escape_def escape_byte_not_Nil)



lemma unat_byte_less: "unat (b :: byte) < 256"
  using unsigned_less [of b, where 'a = nat] by simp


















section \<open>Routes\<close>

lemma get_items_failure:
  "getAllItems p = Inl e \<Longrightarrow>
   get_items env p =
     \<lparr>response = Some
        \<lparr>status = 500,
         body = Json (JObj
           [(''error'', JStr ''Database error''),
            (''details'', JStr (message e)),
            (''config'', JObj
               [(''host'', JStr (or_else (env ''POSTGRESQL_HOST'') ''localhost'')),
                (''port'', JStr (or_else (env ''POSTGRESQL_PORT'') ''5432'')),
                (''database'', JStr (or_else (env ''POSTGRESQL_DB'') ''askar-wallet''))])])\<rparr>,
      forwarded = Some e\<rparr>"
  by (simp add: get_items_def)

lemma get_items_password_irrelevant:
  "get_items (env(''POSTGRESQL_PASSWORD'' := pw)) p = get_items env p"
  by (simp add: get_items_def split: sum.split)

lemma getAllItems_Inl_iff: "getAllItems p = Inl e \<longleftrightarrow> p = Failing e"
  by (cases p) (simp_all add: getAllItems_def select_items_encoded_def)

lemma dbc_user_password_update:
  "dbc_user (dbConfig (env(''POSTGRESQL_PASSWORD'' := pw))) = dbc_user (dbConfig env)"
  by (simp add: dbConfig_def)

lemma module_pool_Unreachable: "module_pool env (Unreachable e) = Failing e"
  by (simp add: module_pool_def)

lemma module_pool_rejected:
  "accounts (dbc_user (dbConfig env)) \<noteq> Some (dbc_password (dbConfig env)) \<Longrightarrow>
   module_pool env (Listening accounts db) =
     Failing (authentication_failed (dbc_user (dbConfig env)))"
  by (simp add: module_pool_def)

lemma failing_pools_agree:
  assumes "module_pool env srv = Failing e1"
    and "module_pool (env(''POSTGRESQL_PASSWORD'' := pw)) srv = Failing e2"
  shows "e2 = e1"
proof (cases srv)
  case (Unreachable e)
  with assms show ?thesis by (simp add: module_pool_Unreachable)
next
  case (Listening accounts db)
  with assms have "e1 = authentication_failed (dbc_user (dbConfig env))"
    and "e2 = authentication_failed (dbc_user (dbConfig (env(''POSTGRESQL_PASSWORD'' := pw))))"
    by (auto simp: module_pool_def split: if_splits)
  then show ?thesis by (simp only: dbc_user_password_update)
qed

lemma failure_hides_password:
  assumes "getAllItems (module_pool env srv) = Inl e1"
    and "getAllItems (module_pool (env(''POSTGRESQL_PASSWORD'' := pw)) srv) = Inl e2"
  shows "get_items (env(''POSTGRESQL_PASSWORD'' := pw))
           (module_pool (env(''POSTGRESQL_PASSWORD'' := pw)) srv) =
         get_items env (module_pool env srv)"
proof -
  from assms have p1: "module_pool env srv = Failing e1"
    and p2: "module_pool (env(''POSTGRESQL_PASSWORD'' := pw)) srv = Failing e2"
    by (simp_all only: getAllItems_Inl_iff)
  from failing_pools_agree [OF p1 p2] have "e2 = e1" .
  with p1 p2 show ?thesis
    by (simp only: get_items_password_irrelevant)
qed

lemma get_items_rejected:
  assumes "accounts (dbc_user (dbConfig env)) \<noteq> Some (dbc_password (dbConfig env))"
  shows "get_items env (module_pool env (Listening accounts db)) =
     \<lparr>response = Some
        \<lparr>status = 500,
         body = Json (JObj
           [(''error'', JStr ''Database error''),
            (''details'', JStr (message (authentication_failed (dbc_user (dbConfig env))))),
            (''config'', JObj
               [(''host'', JStr (or_else (env ''POSTGRESQL_HOST'') ''localhost'')),
                (''port'', JStr (or_else (env ''POSTGRESQL_PORT'') ''5432'')),
                (''database'', JStr (or_else (env ''POSTGRESQL_DB'') ''askar-wallet''))])])\<rparr>,
      forwarded = Some (authentication_failed (dbc_user (dbConfig env)))\<rparr>"
proof -
  have "getAllItems (module_pool env (Listening accounts db)) =
        Inl (authentication_failed (dbc_user (dbConfig env)))"
    by (simp only: module_pool_rejected [of accounts env db, OF assms] getAllItems_Inl_iff)
  then show ?thesis by (rule get_items_failure)
qed

text \<open>
  Claim C7, amended. When the listing of the items fails with an error, the route
  \<open>GET /items\<close> answers with status 500 and an object of three fields: \<open>error\<close> with
  the text \<open>Database error\<close>, \<open>details\<close> with the message of the error, and \<open>config\<close>
  with exactly the host, the port and the database name that the environment gives or
  their defaults; the error is then passed on. With the pool built from the environment,
  two configurations that differ in the password only and both fail get the same
  response. The message of the error is the driver's, and when the server rejects the
  password the response carries the message of the failed authentication, which names
  the configured user.
\<close>

theorem get_items_database_error:
  "(getAllItems p = Inl e \<longrightarrow>
      get_items env p =
     \<lparr>response = Some
        \<lparr>status = 500,
         body = Json (JObj
           [(''error'', JStr ''Database error''),
            (''details'', JStr (message e)),
            (''config'', JObj
               [(''host'', JStr (or_else (env ''POSTGRESQL_HOST'') ''localhost'')),
                (''port'', JStr (or_else (env ''POSTGRESQL_PORT'') ''5432'')),
                (''database'', JStr (or_else (env ''POSTGRESQL_DB'') ''askar-wallet''))])])\<rparr>,
      forwarded = Some e\<rparr>) \<and>
   (\<forall>srv pw e1 e2.
      getAllItems (module_pool env srv) = Inl e1 \<and>
      getAllItems (module_pool (env(''POSTGRESQL_PASSWORD'' := pw)) srv) = Inl e2 \<longrightarrow>
      get_items (env(''POSTGRESQL_PASSWORD'' := pw))
        (module_pool (env(''POSTGRESQL_PASSWORD'' := pw)) srv) =
      get_items env (module_pool env srv)) \<and>
   (\<forall>accounts db.
      accounts (dbc_user (dbConfig env)) \<noteq> Some (dbc_password (dbConfig env)) \<longrightarrow>
      get_items env (module_pool env (Listening accounts db)) =
     \<lparr>response = Some
        \<lparr>status = 500,
         body = Json (JObj
           [(''error'', JStr ''Database error''),
            (''details'', JStr (message (authentication_failed (dbc_user (dbConfig env))))),
            (''config'', JObj
               [(''host'', JStr (or_else (env ''POSTGRESQL_HOST'') ''localhost'')),
                (''port'', JStr (or_else (env ''POSTGRESQL_PORT'') ''5432'')),
                (''database'', JStr (or_else (env ''POSTGRESQL_DB'') ''askar-wallet''))])])\<rparr>,
      forwarded = Some (authentication_failed (dbc_user (dbConfig env)))\<rparr>)"
proof (intro conjI allI impI)
  assume "getAllItems p = Inl e"
  then show "get_items env p =
     \<lparr>response = Some
        \<lparr>status = 500,
         body = Json (JObj
           [(''error'', JStr ''Database error''),
            (''details'', JStr (message e)),
            (''config'', JObj
               [(''host'', JStr (or_else (env ''POSTGRESQL_HOST'') ''localhost'')),
                (''port'', JStr (or_else (env ''POSTGRESQL_PORT'') ''5432'')),
                (''database'', JStr (or_else (env ''POSTGRESQL_DB'') ''askar-wallet''))])])\<rparr>,
      forwarded = Some e\<rparr>"
    by (rule get_items_failure)
next
  fix srv pw e1 e2
  assume "getAllItems (module_pool env srv) = Inl e1 \<and>
      getAllItems (module_pool (env(''POSTGRESQL_PASSWORD'' := pw)) srv) = Inl e2"
  then show "get_items (env(''POSTGRESQL_PASSWORD'' := pw))
        (module_pool (env(''POSTGRESQL_PASSWORD'' := pw)) srv) =
      get_items env (module_pool env srv)"
    using failure_hides_password [of env srv e1 pw e2] by blast
next
  fix accounts db
  assume rejected: "accounts (dbc_user (dbConfig env)) \<noteq> Some (dbc_password (dbConfig env))"
  show "get_items env (module_pool env (Listening accounts db)) =
     \<lparr>response = Some
        \<lparr>status = 500,
         body = Json (JObj
           [(''error'', JStr ''Database error''),
            (''details'', JStr (message (authentication_failed (dbc_user (dbConfig env))))),
            (''config'', JObj
               [(''host'', JStr (or_else (env ''POSTGRESQL_HOST'') ''localhost'')),
                (''port'', JStr (or_else (env ''POSTGRESQL_PORT'') ''5432'')),
                (''database'', JStr (or_else (env ''POSTGRESQL_DB'') ''askar-wallet''))])])\<rparr>,
      forwarded = Some (authentication_failed (dbc_user (dbConfig env)))\<rparr>"
    by (rule get_items_rejected [of accounts env db, OF rejected])
qed

theorem get_items_database_error_witness:
  "getAllItems (Failing (Error ''connect ECONNREFUSED'')) = Inl (Error ''connect ECONNREFUSED'') \<and>
   get_items [''POSTGRESQL_HOST'' \<mapsto> ''db'', ''POSTGRESQL_PASSWORD'' \<mapsto> ''hunter2'']
       (Failing (Error ''connect ECONNREFUSED'')) =
     \<lparr>response = Some
        \<lparr>status = 500,
         body = Json (JObj
           [(''error'', JStr ''Database error''),
            (''details'', JStr ''connect ECONNREFUSED''),
            (''config'', JObj
               [(''host'', JStr ''db''), (''port'', JStr ''5432''),
                (''database'', JStr ''askar-wallet'')])])\<rparr>,
      forwarded = Some (Error ''connect ECONNREFUSED'')\<rparr> \<and>
   getAllItems (module_pool demo_env demo_server) =
     Inl (authentication_failed ''wallet_admin'') \<and>
   getAllItems (module_pool (demo_env(''POSTGRESQL_PASSWORD'' := Some ''other'')) demo_server) =
     Inl (authentication_failed ''wallet_admin'') \<and>
   get_items (demo_env(''POSTGRESQL_PASSWORD'' := Some ''other''))
     (module_pool (demo_env(''POSTGRESQL_PASSWORD'' := Some ''other'')) demo_server) =
   get_items demo_env (module_pool demo_env demo_server)"
proof -
  let ?env = "[''POSTGRESQL_HOST'' \<mapsto> ''db'', ''POSTGRESQL_PASSWORD'' \<mapsto> ''hunter2'']"
  let ?e = "Error ''connect ECONNREFUSED''"
  have fails: "getAllItems (Failing ?e) = Inl ?e"
    by (simp add: getAllItems_def)
  note inst = get_items_database_error [of "Failing ?e" ?e ?env]
  from inst fails have r: "get_items ?env (Failing ?e) =
     \<lparr>response = Some
        \<lparr>status = 500,
         body = Json (JObj
           [(''error'', JStr ''Database error''),
            (''details'', JStr ''connect ECONNREFUSED''),
            (''config'', JObj
               [(''host'', JStr ''db''), (''port'', JStr ''5432''),
                (''database'', JStr ''askar-wallet'')])])\<rparr>,
      forwarded = Some ?e\<rparr>"
    by (simp add: or_else_def)
  have f1: "getAllItems (module_pool demo_env demo_server) =
     Inl (authentication_failed ''wallet_admin'')"
    by (simp add: module_pool_def demo_env_def demo_server_def dbConfig_def or_else_def
          getAllItems_def)
  have f2: "getAllItems (module_pool (demo_env(''POSTGRESQL_PASSWORD'' := Some ''other'')) demo_server) =
     Inl (authentication_failed ''wallet_admin'')"
    by (simp add: module_pool_def demo_env_def demo_server_def dbConfig_def or_else_def
          getAllItems_def)
  from get_items_database_error [of "Failing ?e" ?e demo_env] f1 f2
  have same: "get_items (demo_env(''POSTGRESQL_PASSWORD'' := Some ''other''))
     (module_pool (demo_env(''POSTGRESQL_PASSWORD'' := Some ''other'')) demo_server) =
   get_items demo_env (module_pool demo_env demo_server)"
    by blast
  from fails r f1 f2 same show ?thesis by (intro conjI)
qed

text \<open>
  The claim as it was stated fails when the server rejects the password: the user name
  \<open>wallet_admin\<close> of the configuration is one of the two credentials of the connection,
  and it stands in the \<open>details\<close> field of the response.
\<close>

theorem get_items_names_user_counterexample:
  "dbc_user (dbConfig demo_env) = ''wallet_admin'' \<and>
   get_items demo_env (module_pool demo_env demo_server) =
     \<lparr>response = Some
        \<lparr>status = 500,
         body = Json (JObj
           [(''error'', JStr ''Database error''),
            (''details'', JStr (''password authentication failed for user '' @ [CHR 0x22] @
                                ''wallet_admin'' @ [CHR 0x22])),
            (''config'', JObj
               [(''host'', JStr ''localhost''), (''port'', JStr ''5432''),
                (''database'', JStr ''askar-wallet'')])])\<rparr>,
      forwarded = Some (Error (''password authentication failed for user '' @ [CHR 0x22] @
                               ''wallet_admin'' @ [CHR 0x22]))\<rparr>"
proof -
  have u: "dbc_user (dbConfig demo_env) = ''wallet_admin''"
    by (simp add: dbConfig_def demo_env_def or_else_def)
  have f: "getAllItems (module_pool demo_env demo_server) =
     Inl (authentication_failed ''wallet_admin'')"
    by (simp add: module_pool_def demo_env_def demo_server_def dbConfig_def or_else_def
          getAllItems_def)
  have "get_items demo_env (module_pool demo_env demo_server) =
     \<lparr>response = Some
        \<lparr>status = 500,
         body = Json (JObj
           [(''error'', JStr ''Database error''),
            (''details'', JStr (message (authentication_failed ''wallet_admin''))),
            (''config'', JObj
               [(''host'', JStr (or_else (demo_env ''POSTGRESQL_HOST'') ''localhost'')),
                (''port'', JStr (or_else (demo_env ''POSTGRESQL_PORT'') ''5432'')),
                (''database'', JStr (or_else (demo_env ''POSTGRESQL_DB'') ''askar-wallet''))])])\<rparr>,
      forwarded = Some (authentication_failed ''wallet_admin'')\<rparr>"
    using f by (rule get_items_failure)
  then have "get_items demo_env (module_pool demo_env demo_server) =
     \<lparr>response = Some
        \<lparr>status = 500,
         body = Json (JObj
           [(''error'', JStr ''Database error''),
            (''details'', JStr (''password authentication failed for user '' @ [CHR 0x22] @
                                ''wallet_admin'' @ [CHR 0x22])),
            (''config'', JObj
               [(''host'', JStr ''localhost''), (''port'', JStr ''5432''),
                (''database'', JStr ''askar-wallet'')])])\<rparr>,
      forwarded = Some (Error (''password authentication failed for user '' @ [CHR 0x22] @
                               ''wallet_admin'' @ [CHR 0x22]))\<rparr>"
    by (simp add: authentication_failed_def demo_env_def or_else_def)
  with u show ?thesis by (intro conjI)
qed

lemma run_chain_contactEmail:
  "\<not> isEmail (case req_body req ''contactEmail'' of None \<Rightarrow> [] | Some s \<Rightarrow> s) \<Longrightarrow>
   run_chain req \<lparr>vc_field = ''contactEmail'', vc_negated = False, vc_validator = isEmail\<rparr> =
     [\<lparr>ve_location = ''body'', ve_field = ''contactEmail'',
       ve_value = req_body req ''contactEmail'', ve_msg = ''Invalid value''\<rparr>]"
  by (simp add: run_chain_def)

lemma reservationConfirmation_invalid:
  assumes "\<not> isEmail (case req_body req ''contactEmail'' of None \<Rightarrow> [] | Some s \<Rightarrow> s)"
  shows "reservationConfirmation isEmail send req =
     \<lparr>response = Some \<lparr>status = 422, body = ValidationErrors
         (\<lparr>ve_location = ''body'', ve_field = ''contactEmail'',
           ve_value = req_body req ''contactEmail'', ve_msg = ''Invalid value''\<rparr> #
          run_chain req \<lparr>vc_field = ''reservationId'', vc_negated = True,
                           vc_validator = isEmpty\<rparr>)\<rparr>,
      forwarded = None, emails = []\<rparr>"
  by (simp add: reservationConfirmation_def validationResult_def
        run_chain_contactEmail [of isEmail req, OF assms])

text \<open>
  Claim C8. A request to the reservation confirmation route whose \<open>contactEmail\<close>, read
  as text, is not accepted by \<open>isEmail\<close> is answered with status 422 and a list of
  errors whose first entry names the field \<open>contactEmail\<close>; nothing is passed to
  \<open>next\<close> and the email component is not called.
\<close>

theorem reservationConfirmation_rejects:
  "\<not> isEmail (case req_body req ''contactEmail'' of None \<Rightarrow> [] | Some s \<Rightarrow> s) \<Longrightarrow>
   (\<exists>errors. response (reservationConfirmation isEmail send req) =
        Some \<lparr>status = 422, body = ValidationErrors errors\<rparr> \<and>
      errors \<noteq> [] \<and> ve_field (hd errors) = ''contactEmail'' \<and>
      (\<exists>e \<in> set errors. ve_field e = ''contactEmail'')) \<and>
   forwarded (reservationConfirmation isEmail send req) = None \<and>
   emails (reservationConfirmation isEmail send req) = []"
  by (simp add: reservationConfirmation_invalid)

theorem reservationConfirmation_rejects_witness:
  "\<not> (\<lambda>s. CHR ''@'' \<in> set s)
      (case req_body \<lparr>req_body = [''contactEmail'' \<mapsto> ''nobody'', ''reservationId'' \<mapsto> ''r1'']\<rparr>
              ''contactEmail'' of None \<Rightarrow> [] | Some s \<Rightarrow> s) \<and>
   reservationConfirmation (\<lambda>s. CHR ''@'' \<in> set s) (\<lambda>r. Inr JNull)
     \<lparr>req_body = [''contactEmail'' \<mapsto> ''nobody'', ''reservationId'' \<mapsto> ''r1'']\<rparr> =
   \<lparr>response = Some \<lparr>status = 422, body = ValidationErrors
       [\<lparr>ve_location = ''body'', ve_field = ''contactEmail'', ve_value = Some ''nobody'',
         ve_msg = ''Invalid value''\<rparr>]\<rparr>,
    forwarded = None, emails = []\<rparr>"
proof -
  let ?req = "\<lparr>req_body = [''contactEmail'' \<mapsto> ''nobody'', ''reservationId'' \<mapsto> ''r1'']\<rparr>"
  let ?isEmail = "\<lambda>s. CHR ''@'' \<in> set s"
  have bad: "\<not> ?isEmail (case req_body ?req ''contactEmail'' of None \<Rightarrow> [] | Some s \<Rightarrow> s)"
    by simp
  from reservationConfirmation_rejects [of ?isEmail ?req "\<lambda>r. Inr JNull", OF bad]
  obtain errors where
    r: "response (reservationConfirmation ?isEmail (\<lambda>r. Inr JNull) ?req) =
        Some \<lparr>status = 422, body = ValidationErrors errors\<rparr>"
    and f: "forwarded (reservationConfirmation ?isEmail (\<lambda>r. Inr JNull) ?req) = None"
    and m: "emails (reservationConfirmation ?isEmail (\<lambda>r. Inr JNull) ?req) = []"
    by blast
  have "errors = [\<lparr>ve_location = ''body'', ve_field = ''contactEmail'', ve_value = Some ''nobody'',
         ve_msg = ''Invalid value''\<rparr>]"
    using r by (simp add: reservationConfirmation_def validationResult_def run_chain_def isEmpty_def)
  with r f m have "reservationConfirmation ?isEmail (\<lambda>r. Inr JNull) ?req =
     \<lparr>response = Some \<lparr>status = 422, body = ValidationErrors
       [\<lparr>ve_location = ''body'', ve_field = ''contactEmail'', ve_value = Some ''nobody'',
         ve_msg = ''Invalid value''\<rparr>]\<rparr>,
      forwarded = None, emails = []\<rparr>"
    by (cases "reservationConfirmation ?isEmail (\<lambda>r. Inr JNull) ?req") simp
  with bad show ?thesis by blast
qed

section \<open>The diagnostic report\<close>

lemma getTableData_at_most:
  assumes "getTableData p t (Some n) = Inr rows"
  shows "length rows \<le> nat n"
proof (cases p)
  case (Failing e)
  with assms show ?thesis by (simp add: getTableData_def)
next
  case (Serving db)
  with assms show ?thesis
    by (auto simp: getTableData_Serving split: option.splits if_splits)
qed

lemma table_details_Inr:
  "table_details p ts = Inr ds \<Longrightarrow>
   map td_name ds = ts \<and>
   (\<forall>d \<in> set ds. length (td_sampleData d) \<le> 5 \<and> td_rowCount d = length (td_sampleData d))"
proof (induction ts arbitrary: ds)
  case Nil
  then show ?case by simp
next
  case (Cons t ts)
  from Cons.prems obtain schema sampleData rest where
    s: "getTableSchema p t = Inr schema" and
    d: "getTableData p t (Some 5) = Inr sampleData" and
    r: "table_details p ts = Inr rest" and
    ds: "ds = \<lparr>td_name = t, td_schema = schema, td_sampleData = sampleData,
                td_rowCount = length sampleData\<rparr> # rest"
    by (auto split: sum.splits)
  from getTableData_at_most [OF d] have "length sampleData \<le> 5" by simp
  with Cons.IH [OF r] ds show ?case by simp
qed

lemma table_details_Inl:
  "t \<in> set ts \<Longrightarrow> getTableSchema p t = Inl e \<or> getTableData p t (Some 5) = Inl e \<Longrightarrow>
   \<exists>e'. table_details p ts = Inl e'"
proof (induction ts)
  case Nil
  then show ?case by simp
next
  case (Cons a ts)
  then show ?case
    by (cases "a = t") (auto split: sum.splits)
qed

lemma report_shape:
  "(case getAllItemsFromPublicSchema env p of
      Placeholder entries \<Rightarrow> length entries = 2
    | DatabaseInfo info \<Rightarrow>
        length (di_tableDetails info) \<le> 3 \<and>
        map td_name (di_tableDetails info) = take 3 (di_tables info) \<and>
        (\<forall>d \<in> set (di_tableDetails info).
           length (td_sampleData d) \<le> 5 \<and> td_rowCount d = length (td_sampleData d)))"
proof (cases "public_schema_body env p")
  case (Inl e)
  then show ?thesis by (simp add: getAllItemsFromPublicSchema_def error_placeholder_def)
next
  case (Inr report)
  then have res: "getAllItemsFromPublicSchema env p = report"
    by (simp add: getAllItemsFromPublicSchema_def)
  from Inr obtain tables where t: "getTables p = Inr tables"
    by (auto simp: public_schema_body_def split: sum.splits)
  show ?thesis
  proof (cases "tables = []")
    case True
    with Inr t have "report = Placeholder [sample_item_1, sample_item_2]"
      by (simp add: public_schema_body_def)
    with res show ?thesis by simp
  next
    case False
    with Inr t obtain details where
      d: "table_details p (take 3 tables) = Inr details" and
      rep: "report = DatabaseInfo \<lparr>di_database = dbc_database (dbConfig env),
                                     di_tables = tables, di_tableDetails = details\<rparr>"
      by (auto simp: public_schema_body_def split: sum.splits)
    from table_details_Inr [OF d]
    have names: "map td_name details = take 3 tables"
      and rows: "\<forall>d \<in> set details. length (td_sampleData d) \<le> 5 \<and>
                   td_rowCount d = length (td_sampleData d)"
      by simp_all
    from names have "length details = length (take 3 tables)"
      by (metis length_map)
    then have "length details \<le> 3" by simp
    with names rows res rep show ?thesis by simp
  qed
qed

lemma report_no_tables:
  "getTables p = Inr [] \<Longrightarrow>
   getAllItemsFromPublicSchema env p = Placeholder [sample_item_1, sample_item_2]"
  by (simp add: getAllItemsFromPublicSchema_def public_schema_body_def)

lemma report_listing_fails:
  "getTables p = Inl e \<Longrightarrow>
   getAllItemsFromPublicSchema env p = Placeholder (error_placeholder e)"
  by (simp add: getAllItemsFromPublicSchema_def public_schema_body_def error_placeholder_def)

lemma report_sampling_fails:
  assumes "getTables p = Inr tables" and "t \<in> set (take 3 tables)"
    and "getTableSchema p t = Inl e \<or> getTableData p t (Some 5) = Inl e"
  shows "\<exists>e'. getAllItemsFromPublicSchema env p = Placeholder (error_placeholder e')"
proof -
  from assms(2) have "tables \<noteq> []" by auto
  moreover from table_details_Inl [OF assms(2,3)]
  obtain e' where "table_details p (take 3 tables) = Inl e'" ..
  ultimately have "getAllItemsFromPublicSchema env p = Placeholder (error_placeholder e')"
    using assms(1)
    by (simp add: getAllItemsFromPublicSchema_def public_schema_body_def error_placeholder_def)
  then show ?thesis ..
qed

lemma operations_propagate:
  "getAllItems (Failing e) = Inl e \<and> countItemsByCategory (Failing e) = Inl e \<and>
   getItemsByProfileAndKind (Failing e) = Inl e \<and> getItemById (Failing e) k = Inl e \<and>
   getAllProfiles (Failing e) = Inl e \<and> getConfiguration (Failing e) = Inl e \<and>
   getTableData (Failing e) t limit = Inl e \<and> getTables (Failing e) = Inl e \<and>
   getTableSchema (Failing e) t = Inl e \<and> countItemsByKind (Failing e) = Inl e"
  by (simp add: getAllItems_def countItemsByCategory_def getItemsByProfileAndKind_def
        getItemById_def getAllProfiles_def getConfiguration_def getTableData_def
        getTables_def getTableSchema_def countItemsByKind_def)

text \<open>
  Claim C9. The report of \<open>getAllItemsFromPublicSchema\<close> is either a placeholder list
  of two entries or the description of the database with details for the first three
  tables of the listing, each with at most five sample rows. An empty listing gives the
  two sample items; a failure of the listing, of a schema query or of a sample query for
  one of the three tables gives the error entry and one sample item. On a failing pool
  every other operation of the component throws the error of the pool, and only this one
  returns a value.
\<close>

theorem getAllItemsFromPublicSchema_degrades:
  "(case getAllItemsFromPublicSchema env p of
      Placeholder entries \<Rightarrow> length entries = 2
    | DatabaseInfo info \<Rightarrow>
        length (di_tableDetails info) \<le> 3 \<and>
        map td_name (di_tableDetails info) = take 3 (di_tables info) \<and>
        (\<forall>d \<in> set (di_tableDetails info).
           length (td_sampleData d) \<le> 5 \<and> td_rowCount d = length (td_sampleData d))) \<and>
   (getTables p = Inr [] \<longrightarrow>
      getAllItemsFromPublicSchema env p = Placeholder [sample_item_1, sample_item_2]) \<and>
   (\<forall>e. getTables p = Inl e \<longrightarrow>
      getAllItemsFromPublicSchema env p = Placeholder (error_placeholder e)) \<and>
   (\<forall>tables t e.
      getTables p = Inr tables \<and> t \<in> set (take 3 tables) \<and>
      (getTableSchema p t = Inl e \<or> getTableData p t (Some 5) = Inl e) \<longrightarrow>
      (\<exists>e'. getAllItemsFromPublicSchema env p = Placeholder (error_placeholder e'))) \<and>
   (\<forall>e k t limit.
      getAllItemsFromPublicSchema env (Failing e) = Placeholder (error_placeholder e) \<and>
      getAllItems (Failing e) = Inl e \<and> countItemsByCategory (Failing e) = Inl e \<and>
      getItemsByProfileAndKind (Failing e) = Inl e \<and> getItemById (Failing e) k = Inl e \<and>
      getAllProfiles (Failing e) = Inl e \<and> getConfiguration (Failing e) = Inl e \<and>
      getTableData (Failing e) t limit = Inl e \<and> getTables (Failing e) = Inl e \<and>
      getTableSchema (Failing e) t = Inl e \<and> countItemsByKind (Failing e) = Inl e)"
proof (intro conjI allI impI)
  show "case getAllItemsFromPublicSchema env p of
      Placeholder entries \<Rightarrow> length entries = 2
    | DatabaseInfo info \<Rightarrow>
        length (di_tableDetails info) \<le> 3 \<and>
        map td_name (di_tableDetails info) = take 3 (di_tables info) \<and>
        (\<forall>d \<in> set (di_tableDetails info).
           length (td_sampleData d) \<le> 5 \<and> td_rowCount d = length (td_sampleData d))"
    by (rule report_shape)
next
  assume "getTables p = Inr []"
  then show "getAllItemsFromPublicSchema env p = Placeholder [sample_item_1, sample_item_2]"
    by (rule report_no_tables)
next
  fix e assume "getTables p = Inl e"
  then show "getAllItemsFromPublicSchema env p = Placeholder (error_placeholder e)"
    by (rule report_listing_fails)
next
  fix tables t e
  assume "getTables p = Inr tables \<and> t \<in> set (take 3 tables) \<and>
      (getTableSchema p t = Inl e \<or> getTableData p t (Some 5) = Inl e)"
  then show "\<exists>e'. getAllItemsFromPublicSchema env p = Placeholder (error_placeholder e')"
    using report_sampling_fails [of p tables t e env] by blast
next
  fix e :: js_error and k :: int and t :: string and limit :: "int option"
  have "getTables (Failing e) = Inl e" by (simp add: getTables_def)
  then show "getAllItemsFromPublicSchema env (Failing e) = Placeholder (error_placeholder e)"
    by (rule report_listing_fails)
  show "getAllItems (Failing e) = Inl e" and "countItemsByCategory (Failing e) = Inl e"
    and "getItemsByProfileAndKind (Failing e) = Inl e" and "getItemById (Failing e) k = Inl e"
    and "getAllProfiles (Failing e) = Inl e" and "getConfiguration (Failing e) = Inl e"
    and "getTableData (Failing e) t limit = Inl e" and "getTables (Failing e) = Inl e"
    and "getTableSchema (Failing e) t = Inl e" and "countItemsByKind (Failing e) = Inl e"
    by (simp_all add: operations_propagate)
qed

theorem getAllItemsFromPublicSchema_degrades_witness:
  "getTables (Serving demo_db) = Inr [] \<and>
   getAllItemsFromPublicSchema Map.empty (Serving demo_db) =
     Placeholder [sample_item_1, sample_item_2] \<and>
   getTables (Failing (Error ''down'')) = Inl (Error ''down'') \<and>
   getAllItemsFromPublicSchema Map.empty (Failing (Error ''down'')) =
     Placeholder (error_placeholder (Error ''down'')) \<and>
   getTables (Serving demo_broken) = Inr [''wallet''] \<and>
   getTableData (Serving demo_broken) ''wallet'' (Some 5) =
     Inl (Error ''relation postgres.wallet does not exist'') \<and>
   getAllItemsFromPublicSchema Map.empty (Serving demo_broken) =
     Placeholder (error_placeholder (Error ''relation postgres.wallet does not exist'')) \<and>
   (case getAllItemsFromPublicSchema Map.empty (Serving demo_catalog) of
      Placeholder entries \<Rightarrow> []
    | DatabaseInfo info \<Rightarrow> map (\<lambda>d. (td_name d, td_rowCount d)) (di_tableDetails info)) =
     [(''config'', 0), (''items'', 5), (''profiles'', 1)]"
proof -
  have t1: "getTables (Serving demo_db) = Inr []"
    by (simp add: getTables_def demo_db_def sql_order_by_def)
  have r1: "getAllItemsFromPublicSchema Map.empty (Serving demo_db) =
     Placeholder [sample_item_1, sample_item_2]"
    using getAllItemsFromPublicSchema_degrades [of Map.empty "Serving demo_db"] t1 by blast
  have t2: "getTables (Failing (Error ''down'')) = Inl (Error ''down'')"
    by (simp add: getTables_def)
  have r2: "getAllItemsFromPublicSchema Map.empty (Failing (Error ''down'')) =
     Placeholder (error_placeholder (Error ''down''))"
    using getAllItemsFromPublicSchema_degrades [of Map.empty "Failing (Error ''down'')"] t2
    by blast
  have t3: "getTables (Serving demo_broken) = Inr [''wallet'']"
    by (simp add: getTables_def demo_broken_def sql_order_by_def)
  have d3: "getTableData (Serving demo_broken) ''wallet'' (Some 5) =
     Inl (Error ''relation postgres.wallet does not exist'')"
    by code_simp
  have r3: "getAllItemsFromPublicSchema Map.empty (Serving demo_broken) =
     Placeholder (error_placeholder (Error ''relation postgres.wallet does not exist''))"
    by code_simp
  have r4: "(case getAllItemsFromPublicSchema Map.empty (Serving demo_catalog) of
      Placeholder entries \<Rightarrow> []
    | DatabaseInfo info \<Rightarrow> map (\<lambda>d. (td_name d, td_rowCount d)) (di_tableDetails info)) =
     [(''config'', 0), (''items'', 5), (''profiles'', 1)]"
    by code_simp
  from t1 r1 t2 r2 t3 d3 r3 r4 show ?thesis by (intro conjI)
qed

section \<open>Counts read back by \<open>parseInt\<close>\<close>

lemma digit_char_in: "d < 10 \<Longrightarrow> digit_char d \<in> set ''0123456789''"
  unfolding digit_char_def by (rule nth_mem) simp

lemma set_decimal: "set (decimal n) \<subseteq> set ''0123456789''"
proof (induction n rule: decimal.induct)
  case (1 n)
  show ?case
  proof (cases "n < 10")
    case True
    then have "decimal n = [digit_char n]" by (simp add: decimal.simps)
    with digit_char_in [OF True] show ?thesis by (simp only: set_simps insert_subset empty_subsetI simp_thms)
  next
    case False
    then have d: "decimal n = decimal (n div 10) @ [digit_char (n mod 10)]"
      by (simp add: decimal.simps)
    have "digit_char (n mod 10) \<in> set ''0123456789''"
      by (rule digit_char_in) simp
    with "1.IH" [OF False] show ?thesis
      unfolding d by (simp only: set_append set_simps Un_subset_iff insert_subset empty_subsetI simp_thms)
  qed
qed

lemma decimal_not_Nil: "decimal n \<noteq> []"
  by (subst decimal.simps) simp

lemma digit_value_digit_char: "d < 10 \<Longrightarrow> digit_value 10 (digit_char d) = Some d"
proof -
  assume "d < 10"
  then have "d = 0 \<or> d = 1 \<or> d = 2 \<or> d = 3 \<or> d = 4 \<or> d = 5 \<or> d = 6 \<or> d = 7 \<or> d = 8 \<or> d = 9"
    by arith
  then show ?thesis
    by (elim disjE) (simp_all add: digit_value_def digit_char_def)
qed

lemma digit_value_decimal_char:
  assumes "c \<in> set ''0123456789''"
  shows "\<exists>d. digit_value 10 c = Some d"
proof -
  from assms have "c = CHR ''0'' \<or> c = CHR ''1'' \<or> c = CHR ''2'' \<or> c = CHR ''3'' \<or> c = CHR ''4'' \<or>
      c = CHR ''5'' \<or> c = CHR ''6'' \<or> c = CHR ''7'' \<or> c = CHR ''8'' \<or> c = CHR ''9''"
    by simp
  then show ?thesis
    by (elim disjE) (simp_all add: digit_value_def)
qed

lemma leading_digits_all:
  "set cs \<subseteq> set ''0123456789'' \<Longrightarrow>
   leading_digits 10 cs = map (\<lambda>c. the (digit_value 10 c)) cs"
proof (induction cs)
  case Nil
  show ?case by simp
next
  case (Cons c cs)
  from Cons.prems have c: "c \<in> set ''0123456789''" and cs: "set cs \<subseteq> set ''0123456789''"
    by (simp_all only: set_simps insert_subset)
  from digit_value_decimal_char [OF c] obtain d where "digit_value 10 c = Some d" ..
  with Cons.IH [OF cs] show ?case by simp
qed

lemma digits_value_snoc: "digits_value r (ds @ [d]) = digits_value r ds * r + d"
  by (simp add: digits_value_def)

lemma digits_value_decimal:
  "digits_value 10 (map (\<lambda>c. the (digit_value 10 c)) (decimal n)) = n"
proof (induction n rule: decimal.induct)
  case (1 n)
  show ?case
  proof (cases "n < 10")
    case True
    then show ?thesis
      by (simp add: decimal.simps [of n] digit_value_digit_char digits_value_def)
  next
    case False
    then have d: "decimal n = decimal (n div 10) @ [digit_char (n mod 10)]"
      by (simp add: decimal.simps)
    have "digit_value 10 (digit_char (n mod 10)) = Some (n mod 10)"
      by (rule digit_value_digit_char) simp
    with "1.IH" [OF False] show ?thesis
      unfolding d by (simp add: digits_value_snoc)
  qed
qed

lemma parse_magnitude_decimal: "parse_magnitude (decimal n) = Some n"
proof -
  have x: "CHR ''x'' \<notin> set (decimal n)" and X: "CHR ''X'' \<notin> set (decimal n)"
    using set_decimal [of n] by auto
  have "take 2 (decimal n) \<noteq> ''0x''"
  proof
    assume "take 2 (decimal n) = ''0x''"
    then have "CHR ''x'' \<in> set (take 2 (decimal n))" by simp
    then have "CHR ''x'' \<in> set (decimal n)" by (rule in_set_takeD)
    with x show False ..
  qed
  moreover have "take 2 (decimal n) \<noteq> ''0X''"
  proof
    assume "take 2 (decimal n) = ''0X''"
    then have "CHR ''X'' \<in> set (take 2 (decimal n))" by simp
    then have "CHR ''X'' \<in> set (decimal n)" by (rule in_set_takeD)
    with X show False ..
  qed
  moreover have "leading_digits 10 (decimal n) \<noteq> []"
    using decimal_not_Nil [of n] by (simp add: leading_digits_all [OF set_decimal])
  ultimately show ?thesis
    by (simp add: parse_magnitude_def leading_digits_all [OF set_decimal] digits_value_decimal)
qed

lemma parseInt_decimal: "parseInt (decimal n) = Some (int n)"
proof -
  obtain c cs where s: "decimal n = c # cs"
    using decimal_not_Nil [of n] by (cases "decimal n") auto
  then have "c \<in> set (decimal n)" by simp
  with set_decimal [of n] have c: "c \<in> set ''0123456789''" by blast
  then have "\<not> is_space c" and "c \<noteq> CHR ''-''" and "c \<noteq> CHR ''+''"
    by (auto simp: is_space_def)
  with s parse_magnitude_decimal [of n] show ?thesis
    by (simp add: parseInt_def)
qed

lemma parseInt_bigint_text: "parseInt (bigint_text n) = Some (int n)"
  by (simp add: bigint_text_def parseInt_decimal)

section \<open>The encodings are injective\<close>

lemma byte_eqI: "unat a = unat b \<Longrightarrow> a = b" for a b :: byte
  by (simp add: word_unat_eq_iff)

lemma hex_digit_inj:
  assumes "d < 16" and "e < 16" and "hex_digit d = hex_digit e"
  shows "d = e"
proof -
  have "distinct ''0123456789abcdef''" by simp
  moreover have "d < length ''0123456789abcdef''" and "e < length ''0123456789abcdef''"
    using assms(1,2) by simp_all
  ultimately show ?thesis
    using assms(3) unfolding hex_digit_def by (simp only: nth_eq_iff_index_eq)
qed

lemma hex_byte_inj:
  assumes "hex_byte a = hex_byte b"
  shows "a = b"
proof -
  have la: "unat a div 16 < 16" and lb: "unat b div 16 < 16"
    using unat_byte_less [of a] unat_byte_less [of b] by simp_all
  from assms have hi: "hex_digit (unat a div 16) = hex_digit (unat b div 16)"
    and lo: "hex_digit (unat a mod 16) = hex_digit (unat b mod 16)"
    by (simp_all add: hex_byte_def)
  from hex_digit_inj [OF la lb hi] have "unat a div 16 = unat b div 16" .
  moreover from hex_digit_inj [OF _ _ lo] have "unat a mod 16 = unat b mod 16" by simp
  ultimately have "unat a = unat b"
    by (metis div_mult_mod_eq)
  then show ?thesis by (rule byte_eqI)
qed

lemma encode_hex_inj: "encode_hex xs = encode_hex ys \<Longrightarrow> xs = ys"
proof (induction xs arbitrary: ys)
  case Nil
  then show ?case
    by (cases ys) (simp_all add: encode_hex_def hex_byte_def)
next
  case (Cons x xs)
  show ?case
  proof (cases ys)
    case Nil
    with Cons.prems show ?thesis by (simp add: encode_hex_def hex_byte_def)
  next
    case (Cons y ys')
    with Cons.prems have "hex_byte x @ encode_hex xs = hex_byte y @ encode_hex ys'"
      by (simp add: encode_hex_def)
    moreover have "length (hex_byte x) = length (hex_byte y)"
      by (simp add: hex_byte_def)
    ultimately have "hex_byte x = hex_byte y" and "encode_hex xs = encode_hex ys'"
      by simp_all
    with Cons.IH [of ys'] hex_byte_inj [of x y] Cons show ?thesis by simp
  qed
qed

lemma digit_char_inj:
  assumes "d < 10" and "e < 10" and "digit_char d = digit_char e"
  shows "d = e"
proof -
  have "distinct ''0123456789''" by simp
  moreover have "d < length ''0123456789''" and "e < length ''0123456789''"
    using assms(1,2) by simp_all
  ultimately show ?thesis
    using assms(3) unfolding digit_char_def by (simp only: nth_eq_iff_index_eq)
qed

lemma digit_char_not_backslash: "d < 10 \<Longrightarrow> digit_char d \<noteq> CHR 0x5C"
  using digit_char_in [of d] by auto

lemma char_of_unat_inj:
  fixes a b :: byte
  assumes "char_of (unat a) = char_of (unat b)"
  shows "a = b"
proof -
  have "unat a \<in> {0..<256}" and "unat b \<in> {0..<256}"
    using unat_byte_less [of a] unat_byte_less [of b] by simp_all
  with assms have "unat a = unat b"
    using inj_on_char_of_nat by (simp only: inj_on_eq_iff)
  then show ?thesis by (rule byte_eqI)
qed

lemma octal_digits_inj:
  assumes "(n :: nat) div 64 = m div 64" and "n div 8 mod 8 = m div 8 mod 8"
    and "n mod 8 = m mod 8"
  shows "n = m"
proof -
  have "n div 8 div 8 = m div 8 div 8"
    using assms(1) by (simp add: div_mult2_eq [symmetric])
  with assms(2) have "n div 8 = m div 8"
    by (metis div_mult_mod_eq)
  with assms(3) show ?thesis
    by (metis div_mult_mod_eq)
qed

lemma escape_byte_octal:
  "b = 0 \<or> 128 \<le> unat b \<Longrightarrow>
   escape_byte b = [CHR 0x5C, digit_char (unat b div 64), digit_char (unat b div 8 mod 8),
                    digit_char (unat b mod 8)]"
  by (auto simp: escape_byte_def)

lemma escape_byte_backslash: "escape_byte 0x5C = [CHR 0x5C, CHR 0x5C]"
  by (simp add: escape_byte_def)

lemma escape_byte_literal:
  assumes "\<not> (b = 0 \<or> 128 \<le> unat b)" and "b \<noteq> 0x5C"
  shows "escape_byte b = [char_of (unat b)]" and "char_of (unat b) \<noteq> CHR 0x5C"
proof -
  show "escape_byte b = [char_of (unat b)]"
    using assms by (simp add: escape_byte_def)
  show "char_of (unat b) \<noteq> CHR 0x5C"
  proof
    assume "char_of (unat b) = CHR 0x5C"
    moreover have "CHR 0x5C = char_of (unat (0x5C :: byte))" by code_simp
    ultimately have "b = 0x5C" by (simp only: char_of_unat_inj)
    with assms(2) show False ..
  qed
qed

lemma escape_byte_prefix_free:
  assumes "escape_byte a @ r = escape_byte b @ s"
  shows "a = b"
proof -
  have d64: "unat x div 64 < 10" and d8: "unat x div 8 mod 8 < 10" and d1: "unat x mod 8 < 10"
    for x :: byte
    using unat_byte_less [of x] by simp_all
  consider (oct) "a = 0 \<or> 128 \<le> unat a" | (bs) "a = 0x5C"
    | (lit) "\<not> (a = 0 \<or> 128 \<le> unat a)" "a \<noteq> 0x5C"
    by blast
  then show ?thesis
  proof cases
    case oct
    note ea = escape_byte_octal [OF oct]
    consider (oct') "b = 0 \<or> 128 \<le> unat b" | (bs') "b = 0x5C"
      | (lit') "\<not> (b = 0 \<or> 128 \<le> unat b)" "b \<noteq> 0x5C"
      by blast
    then show ?thesis
    proof cases
      case oct'
      from assms have "digit_char (unat a div 64) = digit_char (unat b div 64)"
        and "digit_char (unat a div 8 mod 8) = digit_char (unat b div 8 mod 8)"
        and "digit_char (unat a mod 8) = digit_char (unat b mod 8)"
        unfolding ea escape_byte_octal [OF oct'] by simp_all
      then have "unat a div 64 = unat b div 64" and "unat a div 8 mod 8 = unat b div 8 mod 8"
        and "unat a mod 8 = unat b mod 8"
        using digit_char_inj d64 d8 d1 by blast+
      then have "unat a = unat b" by (rule octal_digits_inj)
      then show ?thesis by (rule byte_eqI)
    next
      case bs'
      from assms have "digit_char (unat a div 64) = CHR 0x5C"
        unfolding ea bs' escape_byte_backslash by simp
      with digit_char_not_backslash [OF d64] show ?thesis by blast
    next
      case lit'
      from assms have "CHR 0x5C = char_of (unat b)"
        unfolding ea escape_byte_literal(1) [OF lit'] by simp
      with escape_byte_literal(2) [OF lit'] show ?thesis by simp
    qed
  next
    case bs
    consider (oct') "b = 0 \<or> 128 \<le> unat b" | (bs') "b = 0x5C"
      | (lit') "\<not> (b = 0 \<or> 128 \<le> unat b)" "b \<noteq> 0x5C"
      by blast
    then show ?thesis
    proof cases
      case oct'
      from assms have "CHR 0x5C = digit_char (unat b div 64)"
        unfolding bs escape_byte_backslash escape_byte_octal [OF oct'] by simp
      with digit_char_not_backslash [OF d64, of b] show ?thesis by simp
    next
      case bs'
      with bs show ?thesis by simp
    next
      case lit'
      from assms have "CHR 0x5C = char_of (unat b)"
        unfolding bs escape_byte_backslash escape_byte_literal(1) [OF lit'] by simp
      with escape_byte_literal(2) [OF lit'] show ?thesis by simp
    qed
  next
    case lit
    note ea = escape_byte_literal(1) [OF lit]
    consider (oct') "b = 0 \<or> 128 \<le> unat b" | (bs') "b = 0x5C"
      | (lit') "\<not> (b = 0 \<or> 128 \<le> unat b)" "b \<noteq> 0x5C"
      by blast
    then show ?thesis
    proof cases
      case oct'
      from assms have "char_of (unat a) = CHR 0x5C"
        unfolding ea escape_byte_octal [OF oct'] by simp
      with escape_byte_literal(2) [OF lit] show ?thesis by simp
    next
      case bs'
      from assms have "char_of (unat a) = CHR 0x5C"
        unfolding ea bs' escape_byte_backslash by simp
      with escape_byte_literal(2) [OF lit] show ?thesis by simp
    next
      case lit'
      from assms have "char_of (unat a) = char_of (unat b)"
        unfolding ea escape_byte_literal(1) [OF lit'] by simp
      then show ?thesis by (rule char_of_unat_inj)
    qed
  qed
qed

lemma encode_escape_inj: "encode_escape xs = encode_escape ys \<Longrightarrow> xs = ys"
proof (induction xs arbitrary: ys)
  case Nil
  have "encode_escape [] = []" by (simp add: encode_escape_def)
  with Nil have "encode_escape ys = []" by simp
  then show ?case by (simp only: encode_escape_Nil_iff)
next
  case (Cons x xs)
  show ?case
  proof (cases ys)
    case Nil
    have "encode_escape [] = []" by (simp add: encode_escape_def)
    with Nil Cons.prems have "encode_escape (x # xs) = []" by simp
    then show ?thesis by (simp only: encode_escape_Nil_iff) simp
  next
    case (Cons y ys')
    with Cons.prems have eq: "escape_byte x @ encode_escape xs = escape_byte y @ encode_escape ys'"
      by (simp add: encode_escape_def)
    then have "x = y" by (rule escape_byte_prefix_free)
    with eq have "encode_escape xs = encode_escape ys'" by simp
    with Cons.IH [of ys'] \<open>x = y\<close> Cons show ?thesis by simp
  qed
qed

subsection \<open>The hexadecimal text keeps the order of the bytes\<close>

lemma of_char_hex_digit:
  assumes "d < 16"
  shows "of_char (hex_digit d) = (if d < 10 then 48 + d else 87 + d)"
proof -
  from assms have "d = 0 \<or> d = 1 \<or> d = 2 \<or> d = 3 \<or> d = 4 \<or> d = 5 \<or> d = 6 \<or> d = 7 \<or>
      d = 8 \<or> d = 9 \<or> d = 10 \<or> d = 11 \<or> d = 12 \<or> d = 13 \<or> d = 14 \<or> d = 15"
    by arith
  then show ?thesis
    by (elim disjE) (simp_all add: hex_digit_def)
qed

lemma hex_digit_less:
  assumes "d < 16" and "e < 16"
  shows "hex_digit d < hex_digit e \<longleftrightarrow> d < e"
  using assms by (auto simp: less_char_def of_char_hex_digit)

lemma nat_less_nibbles:
  fixes n m :: nat
  shows "n < m \<longleftrightarrow> n div 16 < m div 16 \<or> (n div 16 = m div 16 \<and> n mod 16 < m mod 16)"
proof -
  define q r q' r' where "q = n div 16" and "r = n mod 16" and "q' = m div 16" and "r' = m mod 16"
  have "n = 16 * q + r" and "m = 16 * q' + r'" and "r < 16" and "r' < 16"
    by (simp_all add: q_def r_def q'_def r'_def)
  then have "n < m \<longleftrightarrow> q < q' \<or> (q = q' \<and> r < r')"
    by linarith
  then show ?thesis
    by (simp only: q_def r_def q'_def r'_def)
qed

lemma byte_less_nibbles:
  fixes a b :: byte
  shows "a < b \<longleftrightarrow>
    unat a div 16 < unat b div 16 \<or>
    (unat a div 16 = unat b div 16 \<and> unat a mod 16 < unat b mod 16)"
proof -
  have "a < b \<longleftrightarrow> unat a < unat b" by (rule word_less_nat_alt)
  also have "\<dots> \<longleftrightarrow> unat a div 16 < unat b div 16 \<or>
    (unat a div 16 = unat b div 16 \<and> unat a mod 16 < unat b mod 16)"
    by (rule nat_less_nibbles)
  finally show ?thesis .
qed


lemma hex_byte_append_le:
  "hex_byte a @ r \<le> hex_byte b @ s \<longleftrightarrow> a < b \<or> (a = b \<and> r \<le> s)"
proof -
  define ha la hb lb where "ha = unat a div 16" and "la = unat a mod 16"
    and "hb = unat b div 16" and "lb = unat b mod 16"
  have bounds: "ha < 16" "hb < 16" "la < 16" "lb < 16"
    using unat_byte_less [of a] unat_byte_less [of b] by (simp_all add: ha_def hb_def la_def lb_def)
  have "unat a = unat b \<longleftrightarrow> ha = hb \<and> la = lb"
    unfolding ha_def hb_def la_def lb_def by (metis div_mult_mod_eq)
  then have eq: "a = b \<longleftrightarrow> ha = hb \<and> la = lb"
    by (simp only: word_unat_eq_iff)
  have less: "a < b \<longleftrightarrow> ha < hb \<or> (ha = hb \<and> la < lb)"
    unfolding ha_def hb_def la_def lb_def by (rule byte_less_nibbles)
  have hi: "hex_digit ha = hex_digit hb \<longleftrightarrow> ha = hb"
    using hex_digit_inj [of ha hb] bounds by blast
  have lo: "hex_digit la = hex_digit lb \<longleftrightarrow> la = lb"
    using hex_digit_inj [of la lb] bounds by blast
  have hl: "hex_digit ha < hex_digit hb \<longleftrightarrow> ha < hb"
    by (rule hex_digit_less) (rule bounds)+
  have ll: "hex_digit la < hex_digit lb \<longleftrightarrow> la < lb"
    by (rule hex_digit_less) (rule bounds)+
  have "hex_byte a @ r \<le> hex_byte b @ s \<longleftrightarrow>
        hex_digit ha < hex_digit hb \<or>
        (hex_digit ha = hex_digit hb \<and>
         (hex_digit la < hex_digit lb \<or> (hex_digit la = hex_digit lb \<and> r \<le> s)))"
    by (simp add: hex_byte_def ha_def hb_def la_def lb_def)
  also have "\<dots> \<longleftrightarrow> ha < hb \<or> (ha = hb \<and> (la < lb \<or> (la = lb \<and> r \<le> s)))"
    by (simp only: hi lo hl ll)
  also have "\<dots> \<longleftrightarrow> a < b \<or> (a = b \<and> r \<le> s)"
    unfolding eq less by blast
  finally show ?thesis .
qed

lemma encode_hex_le: "encode_hex xs \<le> encode_hex ys \<longleftrightarrow> xs \<le> ys"
proof (induction xs arbitrary: ys)
  case Nil
  show ?case by (simp add: encode_hex_def)
next
  case (Cons x xs)
  show ?case
  proof (cases ys)
    case Nil
    then show ?thesis by (simp add: encode_hex_def hex_byte_def)
  next
    case (Cons y ys')
    have "encode_hex (x # xs) \<le> encode_hex (y # ys') \<longleftrightarrow>
          hex_byte x @ encode_hex xs \<le> hex_byte y @ encode_hex ys'"
      by (simp add: encode_hex_def)
    also have "\<dots> \<longleftrightarrow> x < y \<or> (x = y \<and> encode_hex xs \<le> encode_hex ys')"
      by (rule hex_byte_append_le)
    also have "\<dots> \<longleftrightarrow> x < y \<or> (x = y \<and> xs \<le> ys')"
      by (simp only: Cons.IH)
    finally show ?thesis by (simp add: Cons)
  qed
qed

section \<open>Grouping and ordering\<close>

lemma insort_key_map:
  assumes "\<And>x. g (f x) = h x"
  shows "insort_key g (f x) (map f xs) = map f (insort_key h x xs)"
  by (induction xs) (simp_all add: assms)

lemma sort_key_map:
  assumes "\<And>x. g (f x) = h x"
  shows "sort_key g (map f xs) = map f (sort_key h xs)"
  by (induction xs) (simp_all add: insort_key_map [of g f h, OF assms])

lemma remdups_map_inj:
  assumes "inj f"
  shows "remdups (map f xs) = map f (remdups xs)"
  by (induction xs) (simp_all add: inj_image_mem_iff [OF assms])

lemma sum_list_indicator:
  "distinct ks \<Longrightarrow> k \<in> set ks \<Longrightarrow> (\<Sum>j\<leftarrow>ks. if k = j then 1 else 0) = (1 :: nat)"
proof (induction ks)
  case Nil
  then show ?case by simp
next
  case (Cons a ks)
  show ?case
  proof (cases "k = a")
    case True
    with Cons.prems have "k \<notin> set ks" by simp
    then have "(\<Sum>j\<leftarrow>ks. if k = j then 1 else 0) = (0 :: nat)"
      by (induction ks) auto
    with True show ?thesis by simp
  next
    case False
    with Cons show ?thesis by simp
  qed
qed

lemma sum_list_group_sizes:
  "distinct ks \<Longrightarrow> key ` set xs \<subseteq> set ks \<Longrightarrow>
   (\<Sum>k\<leftarrow>ks. length (filter (\<lambda>x. key x = k) xs)) = length xs"
proof (induction xs)
  case Nil
  show ?case by simp
next
  case (Cons x xs)
  have "(\<Sum>k\<leftarrow>ks. length (filter (\<lambda>y. key y = k) (x # xs))) =
        (\<Sum>k\<leftarrow>ks. (if key x = k then 1 else 0) + length (filter (\<lambda>y. key y = k) xs))"
    by (rule arg_cong [where f = sum_list], rule map_cong) simp_all
  also have "\<dots> = (\<Sum>k\<leftarrow>ks. if key x = k then 1 else 0) +
                   (\<Sum>k\<leftarrow>ks. length (filter (\<lambda>y. key y = k) xs))"
    by (simp add: sum_list_addf)
  also have "\<dots> = 1 + length xs"
    using Cons sum_list_indicator [of ks "key x"] by simp
  finally show ?case by simp
qed

lemma sum_list_int: "(\<Sum>x\<leftarrow>xs. int (f x)) = int (\<Sum>x\<leftarrow>xs. f x)"
  by (induction xs) simp_all

lemma sql_group_by_encoded:
  assumes "inj enc"
  shows "sql_group_by (\<lambda>r. enc (key r)) rows =
         map (\<lambda>k. (enc k, filter (\<lambda>r. key r = k) rows)) (remdups (map key rows))"
proof -
  have "map (\<lambda>r. enc (key r)) rows = map enc (map key rows)" by simp
  then have "remdups (map (\<lambda>r. enc (key r)) rows) = map enc (remdups (map key rows))"
    by (simp only: remdups_map_inj [OF assms])
  then show ?thesis
    by (simp add: sql_group_by_def o_def inj_eq [OF assms])
qed

section \<open>The summary by kind\<close>

lemma format_kind_count_group:
  "format_kind_count \<lparr>kg_kind = k, kg_count = length (filter (\<lambda>i. item_kind i = k) its)\<rparr> =
   kind_summary_row its k"
  by (simp add: format_kind_count_def kind_summary_row_def parseInt_bigint_text)

lemma select_kind_groups_sorted:
  "select_kind_groups db =
     Inr (map (\<lambda>k. \<lparr>kg_kind = k, kg_count = length (filter (\<lambda>i. item_kind i = k) (items db))\<rparr>)
            (sorted_list_of_set (item_kind ` set (items db))))"
proof -
  let ?row = "\<lambda>k. \<lparr>kg_kind = k, kg_count = length (filter (\<lambda>i. item_kind i = k) (items db))\<rparr>"
  have "map (\<lambda>(k, g). \<lparr>kg_kind = k, kg_count = length g\<rparr>) (sql_group_by item_kind (items db)) =
        map ?row (remdups (map item_kind (items db)))"
    by (simp add: sql_group_by_def o_def)
  moreover have "sort_key kg_kind (map ?row (remdups (map item_kind (items db)))) =
        map ?row (sort_key (\<lambda>k. k) (remdups (map item_kind (items db))))"
    by (rule sort_key_map) simp
  moreover have "sort_key (\<lambda>k. k) (remdups (map item_kind (items db))) =
        sorted_list_of_set (item_kind ` set (items db))"
    by (simp add: sorted_list_of_set_sort_remdups [symmetric])
  ultimately show ?thesis
    by (simp add: select_kind_groups_def sql_order_by_def)
qed

lemma countItemsByKind_Serving:
  "countItemsByKind (Serving db) =
     Inr (map (kind_summary_row (items db)) (sorted_list_of_set (item_kind ` set (items db))))"
  by (simp add: countItemsByKind_def select_kind_groups_sorted o_def format_kind_count_group)

lemma kind_summary_counts_sum:
  "(\<Sum>k\<leftarrow>sorted_list_of_set (item_kind ` set its).
      the (kc_count (kind_summary_row its k))) = int (length its)"
proof -
  let ?ks = "sorted_list_of_set (item_kind ` set its)"
  have "(\<Sum>k\<leftarrow>?ks. the (kc_count (kind_summary_row its k))) =
        (\<Sum>k\<leftarrow>?ks. int (length (filter (\<lambda>i. item_kind i = k) its)))"
    by (simp add: kind_summary_row_def)
  also have "\<dots> = int (\<Sum>k\<leftarrow>?ks. length (filter (\<lambda>i. item_kind i = k) its))"
    by (rule sum_list_int)
  also have "(\<Sum>k\<leftarrow>?ks. length (filter (\<lambda>i. item_kind i = k) its)) = length its"
    by (rule sum_list_group_sizes) simp_all
  finally show ?thesis .
qed

text \<open>
  Claim C3. On a serving pool \<open>countItemsByKind\<close> answers with the rows of the kind
  codes that occur in the items table, each code once and in ascending order; the row of
  a code carries the label, the code and the number of items of that kind, and the
  counts of all rows add up to the number of rows of the items table.
\<close>

theorem countItemsByKind_summary:
  "\<exists>rows. countItemsByKind (Serving db) = Inr rows \<and>
     map kc_kind_id rows = sorted_list_of_set (item_kind ` set (items db)) \<and>
     distinct (map kc_kind_id rows) \<and> sorted (map kc_kind_id rows) \<and>
     set (map kc_kind_id rows) = item_kind ` set (items db) \<and>
     (\<forall>r \<in> set rows.
        kc_kind r = formatKind (kc_kind_id r) \<and>
        kc_count r = Some (int (length (filter (\<lambda>i. item_kind i = kc_kind_id r) (items db))))) \<and>
     sum_list (map (\<lambda>r. the (kc_count r)) rows) = int (length (items db))"
proof -
  let ?ks = "sorted_list_of_set (item_kind ` set (items db))"
  let ?rows = "map (kind_summary_row (items db)) ?ks"
  have ids: "map kc_kind_id ?rows = ?ks"
    by (simp add: o_def kind_summary_row_def)
  have rows: "\<forall>r \<in> set ?rows.
        kc_kind r = formatKind (kc_kind_id r) \<and>
        kc_count r = Some (int (length (filter (\<lambda>i. item_kind i = kc_kind_id r) (items db))))"
    by (auto simp: kind_summary_row_def)
  have total: "sum_list (map (\<lambda>r. the (kc_count r)) ?rows) = int (length (items db))"
    using kind_summary_counts_sum [of "items db"] by (simp add: o_def)
  have "distinct ?ks" and "sorted ?ks" and "set ?ks = item_kind ` set (items db)"
    by simp_all
  with ids rows total countItemsByKind_Serving [of db] show ?thesis
    by (intro exI [of _ ?rows]) (simp only: simp_thms)
qed

theorem countItemsByKind_summary_witness:
  "countItemsByKind (Serving demo_wallet) =
     Inr [\<lparr>kc_kind = ''Connection'', kc_kind_id = 1, kc_count = Some 1\<rparr>,
          \<lparr>kc_kind = ''Credential'', kc_kind_id = 2, kc_count = Some 2\<rparr>,
          \<lparr>kc_kind = ''Type 7'', kc_kind_id = 7, kc_count = Some 1\<rparr>] \<and>
   sum_list (map (\<lambda>r. the (kc_count r))
     [\<lparr>kc_kind = ''Connection'', kc_kind_id = 1, kc_count = Some 1\<rparr>,
      \<lparr>kc_kind = ''Credential'', kc_kind_id = 2, kc_count = Some 2\<rparr>,
      \<lparr>kc_kind = ''Type 7'', kc_kind_id = 7, kc_count = Some 1\<rparr>]) =
     int (length (items demo_wallet))"
proof -
  have ev: "countItemsByKind (Serving demo_wallet) =
     Inr [\<lparr>kc_kind = ''Connection'', kc_kind_id = 1, kc_count = Some 1\<rparr>,
          \<lparr>kc_kind = ''Credential'', kc_kind_id = 2, kc_count = Some 2\<rparr>,
          \<lparr>kc_kind = ''Type 7'', kc_kind_id = 7, kc_count = Some 1\<rparr>]"
    by code_simp
  from countItemsByKind_summary [of demo_wallet] obtain rows where
    r: "countItemsByKind (Serving demo_wallet) = Inr rows" and
    t: "sum_list (map (\<lambda>r. the (kc_count r)) rows) = int (length (items demo_wallet))"
    by blast
  from ev r have "rows = [\<lparr>kc_kind = ''Connection'', kc_kind_id = 1, kc_count = Some 1\<rparr>,
          \<lparr>kc_kind = ''Credential'', kc_kind_id = 2, kc_count = Some 2\<rparr>,
          \<lparr>kc_kind = ''Type 7'', kc_kind_id = 7, kc_count = Some 1\<rparr>]"
    by simp
  with t ev show ?thesis by (simp only: simp_thms)
qed

section \<open>The summary by category\<close>

lemma inj_encode_group: "inj encode_group"
  by (rule injI) (auto simp: encode_group_def dest: encode_hex_inj encode_escape_inj)

lemma sql_group_by_map:
  "sql_group_by key (map f xs) =
     map (\<lambda>(k, g). (k, map f g)) (sql_group_by (\<lambda>x. key (f x)) xs)"
  by (simp add: sql_group_by_def filter_map o_def)

lemma item_data_key:
  "(id_category_hex (item_data_of i), id_name_text (item_data_of i), id_kind (item_data_of i)) =
   encode_group (item_group i)"
  by (simp add: item_data_of_def encode_group_def item_group_def)

lemma category_groups_rows:
  "map (\<lambda>((c, n, k), g).
          \<lparr>cg_category_hex = c, cg_name_text = n, cg_count = length g, cg_kind = k,
           cg_item_ids = map id_id g\<rparr>)
     (sql_group_by (\<lambda>d. (id_category_hex d, id_name_text d, id_kind d)) (map item_data_of its)) =
   map (group_row its) (remdups (map item_group its))"
proof -
  have "sql_group_by (\<lambda>d. (id_category_hex d, id_name_text d, id_kind d)) (map item_data_of its) =
        map (\<lambda>(k, g). (k, map item_data_of g))
          (sql_group_by (\<lambda>i. encode_group (item_group i)) its)"
    by (simp add: sql_group_by_map item_data_key)
  also have "sql_group_by (\<lambda>i. encode_group (item_group i)) its =
        map (\<lambda>g. (encode_group g, filter (\<lambda>i. item_group i = g) its)) (remdups (map item_group its))"
    by (rule sql_group_by_encoded) (rule inj_encode_group)
  finally have eq:
    "sql_group_by (\<lambda>d. (id_category_hex d, id_name_text d, id_kind d)) (map item_data_of its) =
     map (\<lambda>(k, g). (k, map item_data_of g))
       (map (\<lambda>g. (encode_group g, filter (\<lambda>i. item_group i = g) its))
          (remdups (map item_group its)))" .
  show ?thesis
    unfolding eq
    by (simp add: o_def group_row_def group_size_def encode_group_def item_data_of_def
          split_beta)
qed

lemma select_category_groups_sorted:
  "select_category_groups db =
     Inr (map (group_row (items db))
            (sort_key (\<lambda>g. (- int (group_size (items db) g), encode_hex (fst g)))
               (remdups (map item_group (items db)))))"
proof -
  have "sort_key (\<lambda>r. (- int (cg_count r), cg_category_hex r))
          (map (group_row (items db)) (remdups (map item_group (items db)))) =
        map (group_row (items db))
          (sort_key (\<lambda>g. (- int (group_size (items db) g), encode_hex (fst g)))
             (remdups (map item_group (items db))))"
    by (rule sort_key_map) (simp add: group_row_def)
  then show ?thesis
    by (simp add: select_category_groups_def sql_order_by_def category_groups_rows)
qed

lemma credential_type_of_escape:
  "credential_type_of t = (if filter printable t = [] then ''Unknown'' else filter printable t)"
  by (cases t) (simp_all add: credential_type_of_def Let_def)

lemma format_category_group_row:
  "format_category (group_row its g) = category_summary_row its g"
  by (cases g)
     (simp add: format_category_def group_row_def category_summary_row_def
        credential_type_of_escape parseInt_bigint_text group_size_def)

lemma countItemsByCategory_Serving:
  "countItemsByCategory (Serving db) =
     Inr (map (category_summary_row (items db))
            (sort_key (\<lambda>g. (- int (group_size (items db) g), encode_hex (fst g)))
               (remdups (map item_group (items db)))))"
  by (simp add: countItemsByCategory_def select_category_groups_sorted o_def
        format_category_group_row)

lemma groups_ordered:
  "sorted_wrt (group_before its)
     (sort_key (\<lambda>g. (- int (group_size its g), encode_hex (fst g))) gs)"
proof -
  let ?key = "\<lambda>g. (- int (group_size its g), encode_hex (fst g))"
  have "sorted (map ?key (sort_key ?key gs))" by (rule sorted_sort_key)
  then have "sorted_wrt (\<lambda>g h. ?key g \<le> ?key h) (sort_key ?key gs)"
    by (simp only: sorted_map)
  moreover have "?key g \<le> ?key h \<Longrightarrow> group_before its g h" for g h
    by (auto simp: group_before_def less_eq_prod_def encode_hex_le)
  ultimately show ?thesis
    by (rule sorted_wrt_mono_rel [rotated]) simp
qed

lemma printable_backslash: "printable (CHR 0x5C)"
  by (simp add: printable_def)

lemma printable_char_of_unat:
  "printable (char_of (unat b)) \<longleftrightarrow> 0x20 \<le> unat b \<and> unat b \<le> 0x7E" for b :: byte
proof -
  have "of_char (char_of (unat b)) = unat b"
    using unat_byte_less [of b] by simp
  then show ?thesis
    by (simp add: printable_def less_eq_char_def)
qed

lemma printable_escape_byte:
  "filter printable (escape_byte b) = [] \<longleftrightarrow>
   (1 \<le> unat b \<and> unat b < 0x20) \<or> unat b = 0x7F"
proof -
  consider (oct) "b = 0 \<or> 128 \<le> unat b" | (bs) "b = 0x5C"
    | (lit) "\<not> (b = 0 \<or> 128 \<le> unat b)" "b \<noteq> 0x5C"
    by blast
  then show ?thesis
  proof cases
    case oct
    then have "\<not> ((1 \<le> unat b \<and> unat b < 0x20) \<or> unat b = 0x7F)" by auto
    then show ?thesis
      by (simp add: escape_byte_octal [OF oct] printable_backslash)
  next
    case bs
    then show ?thesis
      by (simp add: escape_byte_backslash printable_backslash)
  next
    case lit
    from lit(1) have "b \<noteq> 0" and "unat b < 128" by simp_all
    then have "1 \<le> unat b" and "unat b < 128"
      by (simp_all add: unat_gt_0 Suc_le_eq)
    then show ?thesis
      by (auto simp: escape_byte_literal(1) [OF lit] printable_char_of_unat)
  qed
qed

lemma printable_encode_escape:
  "filter printable (encode_escape n) = [] \<longleftrightarrow>
   (\<forall>b \<in> set n. (1 \<le> unat b \<and> unat b < 0x20) \<or> unat b = 0x7F)"
  by (simp add: encode_escape_def filter_concat concat_eq_Nil_conv printable_escape_byte)

lemma category_summary_row_fields:
  "cc_category_hex (category_summary_row its g) = encode_hex (fst g) \<and>
   cc_credential_type (category_summary_row its g) =
     (if filter printable (encode_escape (fst (snd g))) = [] then ''Unknown''
      else filter printable (encode_escape (fst (snd g)))) \<and>
   cc_count (category_summary_row its g) = Some (int (group_size its g)) \<and>
   cc_kind (category_summary_row its g) = formatKind (snd (snd g)) \<and>
   cc_item_ids (category_summary_row its g) = map item_id (filter (\<lambda>i. item_group i = g) its)"
  by (cases g) (simp add: category_summary_row_def group_size_def)

lemma rows_ordered:
  assumes "sorted_wrt (group_before its) gs"
  shows "sorted_wrt (\<lambda>a b. the (cc_count b) < the (cc_count a) \<or>
            (cc_count a = cc_count b \<and> cc_category_hex a \<le> cc_category_hex b))
          (map (category_summary_row its) gs)"
proof -
  have "group_before its g h \<Longrightarrow>
        the (cc_count (category_summary_row its h)) < the (cc_count (category_summary_row its g)) \<or>
        (cc_count (category_summary_row its g) = cc_count (category_summary_row its h) \<and>
         cc_category_hex (category_summary_row its g) \<le> cc_category_hex (category_summary_row its h))"
    for g h
    by (auto simp: group_before_def category_summary_row_fields encode_hex_le)
  with assms show ?thesis
    unfolding sorted_wrt_map by (rule sorted_wrt_mono_rel [rotated]) simp
qed

text \<open>
  Claim C4, amended. On a serving pool \<open>countItemsByCategory\<close> answers with one row for
  each distinct (category, name, kind) of the items table, the rows in the order of
  falling count and, among equal counts, rising category (the hexadecimal text keeps
  the order of the bytes). The credential
  type of a row is the escaped text of the name without its non-printable characters,
  and is \<open>Unknown\<close> whenever nothing is left of it. Nothing is left exactly when every
  byte of the name is a control byte (1 to 31, or 127): a zero byte and a byte from 128
  on are written as a backslash and three octal digits, which are printable.
\<close>

theorem countItemsByCategory_summary:
  "\<exists>groups.
     countItemsByCategory (Serving db) = Inr (map (category_summary_row (items db)) groups) \<and>
     distinct groups \<and> set groups = item_group ` set (items db) \<and>
     length groups = card (item_group ` set (items db)) \<and>
     sorted_wrt (group_before (items db)) groups \<and>
     sorted_wrt (\<lambda>a b. the (cc_count b) < the (cc_count a) \<or>
                  (cc_count a = cc_count b \<and> cc_category_hex a \<le> cc_category_hex b))
       (map (category_summary_row (items db)) groups) \<and>
     (\<forall>g \<in> set groups.
        cc_category_hex (category_summary_row (items db) g) = encode_hex (fst g) \<and>
        cc_credential_type (category_summary_row (items db) g) =
          (if filter printable (encode_escape (fst (snd g))) = [] then ''Unknown''
           else filter printable (encode_escape (fst (snd g)))) \<and>
        (filter printable (encode_escape (fst (snd g))) = [] \<longleftrightarrow>
           (\<forall>b \<in> set (fst (snd g)). (1 \<le> unat b \<and> unat b < 0x20) \<or> unat b = 0x7F)))"
proof -
  let ?gs = "sort_key (\<lambda>g. (- int (group_size (items db) g), encode_hex (fst g)))
               (remdups (map item_group (items db)))"
  have d: "distinct ?gs" and s: "set ?gs = item_group ` set (items db)"
    by simp_all
  have "card (set ?gs) = length ?gs"
    using d by (rule distinct_card)
  then have l: "length ?gs = card (item_group ` set (items db))"
    by (simp only: s)
  have o: "sorted_wrt (group_before (items db)) ?gs"
    by (rule groups_ordered)
  have f: "\<forall>g \<in> set ?gs.
        cc_category_hex (category_summary_row (items db) g) = encode_hex (fst g) \<and>
        cc_credential_type (category_summary_row (items db) g) =
          (if filter printable (encode_escape (fst (snd g))) = [] then ''Unknown''
           else filter printable (encode_escape (fst (snd g)))) \<and>
        (filter printable (encode_escape (fst (snd g))) = [] \<longleftrightarrow>
           (\<forall>b \<in> set (fst (snd g)). (1 \<le> unat b \<and> unat b < 0x20) \<or> unat b = 0x7F))"
  proof (intro ballI conjI)
    fix g
    show "cc_category_hex (category_summary_row (items db) g) = encode_hex (fst g)"
      by (simp only: category_summary_row_fields)
    show "cc_credential_type (category_summary_row (items db) g) =
          (if filter printable (encode_escape (fst (snd g))) = [] then ''Unknown''
           else filter printable (encode_escape (fst (snd g))))"
      by (simp only: category_summary_row_fields)
    show "filter printable (encode_escape (fst (snd g))) = [] \<longleftrightarrow>
           (\<forall>b \<in> set (fst (snd g)). (1 \<le> unat b \<and> unat b < 0x20) \<or> unat b = 0x7F)"
      by (rule printable_encode_escape)
  qed
  show ?thesis
    apply (rule exI [of _ ?gs])
    apply (intro conjI)
          apply (rule countItemsByCategory_Serving)
         apply (rule d)
        apply (rule s)
       apply (rule l)
      apply (rule o)
     apply (rule rows_ordered [OF o])
    apply (rule f)
    done
qed

theorem countItemsByCategory_summary_witness:
  "countItemsByCategory (Serving demo_wallet) =
     Inr [\<lparr>cc_category_hex = ''ab'', cc_credential_type = ''A'', cc_count = Some 2,
           cc_kind = ''Credential'', cc_item_ids = [1, 2]\<rparr>,
          \<lparr>cc_category_hex = ''0c'',
           cc_credential_type = [CHR 0x5C, CHR ''2'', CHR ''0'', CHR ''0''],
           cc_count = Some 1, cc_kind = ''Connection'', cc_item_ids = [3]\<rparr>,
          \<lparr>cc_category_hex = ''0c'', cc_credential_type = ''Unknown'', cc_count = Some 1,
           cc_kind = ''Type 7'', cc_item_ids = [4]\<rparr>] \<and>
   card (item_group ` set (items demo_wallet)) = 3"
proof -
  have ev: "countItemsByCategory (Serving demo_wallet) =
     Inr [\<lparr>cc_category_hex = ''ab'', cc_credential_type = ''A'', cc_count = Some 2,
           cc_kind = ''Credential'', cc_item_ids = [1, 2]\<rparr>,
          \<lparr>cc_category_hex = ''0c'',
           cc_credential_type = [CHR 0x5C, CHR ''2'', CHR ''0'', CHR ''0''],
           cc_count = Some 1, cc_kind = ''Connection'', cc_item_ids = [3]\<rparr>,
          \<lparr>cc_category_hex = ''0c'', cc_credential_type = ''Unknown'', cc_count = Some 1,
           cc_kind = ''Type 7'', cc_item_ids = [4]\<rparr>]"
    by code_simp
  from countItemsByCategory_summary [of demo_wallet] obtain groups where
    r: "countItemsByCategory (Serving demo_wallet) =
          Inr (map (category_summary_row (items demo_wallet)) groups)" and
    l: "length groups = card (item_group ` set (items demo_wallet))"
    by blast
  from ev r have "length (map (category_summary_row (items demo_wallet)) groups) = 3"
    by simp
  with l have "card (item_group ` set (items demo_wallet)) = 3" by simp
  with ev show ?thesis by (simp only: simp_thms)
qed

text \<open>
  The claim as it was stated fails for a name whose only byte is \<open>0x80\<close>: the byte is
  outside \<open>0x20\<close> to \<open>0x7E\<close>, its escaped text is a backslash and \<open>200\<close>, and the
  credential type is that text, not \<open>Unknown\<close>.
\<close>

theorem countItemsByCategory_high_byte_counterexample:
  "map item_name (items demo_high_byte) = [[0x80]] \<and>
   \<not> (0x20 \<le> unat (0x80 :: byte) \<and> unat (0x80 :: byte) \<le> 0x7E) \<and>
   countItemsByCategory (Serving demo_high_byte) =
     Inr [\<lparr>cc_category_hex = ''0c'',
           cc_credential_type = [CHR 0x5C, CHR ''2'', CHR ''0'', CHR ''0''],
           cc_count = Some 1, cc_kind = ''Connection'', cc_item_ids = [3]\<rparr>] \<and>
   [CHR 0x5C, CHR ''2'', CHR ''0'', CHR ''0''] \<noteq> ''Unknown''"
proof -
  have "map item_name (items demo_high_byte) = [[0x80]]"
    by (simp add: demo_high_byte_def)
  moreover have "\<not> (0x20 \<le> unat (0x80 :: byte) \<and> unat (0x80 :: byte) \<le> 0x7E)"
    by simp
  moreover have "countItemsByCategory (Serving demo_high_byte) =
     Inr [\<lparr>cc_category_hex = ''0c'',
           cc_credential_type = [CHR 0x5C, CHR ''2'', CHR ''0'', CHR ''0''],
           cc_count = Some 1, cc_kind = ''Connection'', cc_item_ids = [3]\<rparr>]"
    by code_simp
  moreover have "[CHR 0x5C, CHR ''2'', CHR ''0'', CHR ''0''] \<noteq> ''Unknown''"
    by simp
  ultimately show ?thesis by (intro conjI)
qed

text \<open>
  Claim C10. Every row that \<open>countItemsByCategory\<close> returns belongs to one (category,
  name, kind) of the items table: its list of identifiers holds the identifiers of the
  items with that category, name and kind, in table order, and its count is the length
  of that list.
\<close>

theorem countItemsByCategory_item_ids:
  "countItemsByCategory (Serving db) = Inr rows \<Longrightarrow>
   \<forall>r \<in> set rows.
     cc_count r = Some (int (length (cc_item_ids r))) \<and>
     (\<exists>c n k. (c, n, k) \<in> item_group ` set (items db) \<and>
        cc_category_hex r = encode_hex c \<and> cc_kind r = formatKind k \<and>
        cc_item_ids r =
          map item_id (filter (\<lambda>i. item_category i = c \<and> item_name i = n \<and> item_kind i = k)
                         (items db)))"
proof
  fix r
  assume res: "countItemsByCategory (Serving db) = Inr rows" and r: "r \<in> set rows"
  let ?gs = "sort_key (\<lambda>g. (- int (group_size (items db) g), encode_hex (fst g)))
               (remdups (map item_group (items db)))"
  from res have "rows = map (category_summary_row (items db)) ?gs"
    by (simp add: countItemsByCategory_Serving)
  with r obtain g where g: "g \<in> set ?gs" and rg: "r = category_summary_row (items db) g"
    by auto
  obtain c n k where cnk: "g = (c, n, k)" by (cases g)
  from g have mem: "(c, n, k) \<in> item_group ` set (items db)"
    by (simp add: cnk)
  have same: "(\<lambda>i. item_group i = (c, n, k)) =
              (\<lambda>i. item_category i = c \<and> item_name i = n \<and> item_kind i = k)"
    by (auto simp: item_group_def)
  have "cc_count r = Some (int (length (cc_item_ids r)))"
    by (simp add: rg cnk category_summary_row_def)
  moreover have "cc_category_hex r = encode_hex c \<and> cc_kind r = formatKind k \<and>
        cc_item_ids r =
          map item_id (filter (\<lambda>i. item_category i = c \<and> item_name i = n \<and> item_kind i = k)
                         (items db))"
    by (simp add: rg cnk category_summary_row_def same)
  ultimately show "cc_count r = Some (int (length (cc_item_ids r))) \<and>
     (\<exists>c n k. (c, n, k) \<in> item_group ` set (items db) \<and>
        cc_category_hex r = encode_hex c \<and> cc_kind r = formatKind k \<and>
        cc_item_ids r =
          map item_id (filter (\<lambda>i. item_category i = c \<and> item_name i = n \<and> item_kind i = k)
                         (items db)))"
    using mem by blast
qed

theorem countItemsByCategory_item_ids_witness:
  "countItemsByCategory (Serving demo_wallet) =
     Inr [\<lparr>cc_category_hex = ''ab'', cc_credential_type = ''A'', cc_count = Some 2,
           cc_kind = ''Credential'', cc_item_ids = [1, 2]\<rparr>,
          \<lparr>cc_category_hex = ''0c'',
           cc_credential_type = [CHR 0x5C, CHR ''2'', CHR ''0'', CHR ''0''],
           cc_count = Some 1, cc_kind = ''Connection'', cc_item_ids = [3]\<rparr>,
          \<lparr>cc_category_hex = ''0c'', cc_credential_type = ''Unknown'', cc_count = Some 1,
           cc_kind = ''Type 7'', cc_item_ids = [4]\<rparr>] \<and>
   cc_count \<lparr>cc_category_hex = ''ab'', cc_credential_type = ''A'', cc_count = Some 2,
              cc_kind = ''Credential'', cc_item_ids = [1, 2]\<rparr> =
     Some (int (length (cc_item_ids
       \<lparr>cc_category_hex = ''ab'', cc_credential_type = ''A'', cc_count = Some 2,
         cc_kind = ''Credential'', cc_item_ids = [1, 2]\<rparr>)))"
proof -
  let ?r1 = "\<lparr>cc_category_hex = ''ab'', cc_credential_type = ''A'', cc_count = Some 2,
              cc_kind = ''Credential'', cc_item_ids = [1, 2]\<rparr>"
  let ?rows = "[?r1,
          \<lparr>cc_category_hex = ''0c'',
           cc_credential_type = [CHR 0x5C, CHR ''2'', CHR ''0'', CHR ''0''],
           cc_count = Some 1, cc_kind = ''Connection'', cc_item_ids = [3]\<rparr>,
          \<lparr>cc_category_hex = ''0c'', cc_credential_type = ''Unknown'', cc_count = Some 1,
           cc_kind = ''Type 7'', cc_item_ids = [4]\<rparr>]"
  have ev: "countItemsByCategory (Serving demo_wallet) = Inr ?rows"
    by code_simp
  have "?r1 \<in> set ?rows" by simp
  with countItemsByCategory_item_ids [OF ev]
  have "cc_count ?r1 = Some (int (length (cc_item_ids ?r1)))"
    by blast
  with ev show ?thesis by (simp only: simp_thms)
qed

end
